theory Spec2Isabelle
  imports Main
begin

section \<open>Values, keyword arguments and errors\<close>

text \<open>
  The orchestrator of \<^verbatim>\<open>curdling/install.py\<close> passes package names, paths and
  keyword dictionaries between its collaborators. A Python value that travels in
  such a dictionary is a string, \<^verbatim>\<open>None\<close>, or an object of some class (the
  exception a failed service stores); a keyword dictionary is an association list,
  read with \<open>map_of\<close>.
\<close>

datatype pyval = Str string | NoneVal | Obj string string

type_synonym kwargs = "(string \<times> pyval) list"

datatype error = KeyError string | TypeError | ZeroDivisionError | NotFoundError string

text \<open>\<^verbatim>\<open>d.get(k, default)\<close> and \<^verbatim>\<open>d.get(k)\<close> (whose default is \<^verbatim>\<open>None\<close>).\<close>

definition dict_get :: "kwargs \<Rightarrow> string \<Rightarrow> pyval \<Rightarrow> pyval" where
  "dict_get d k dflt = (case map_of d k of None \<Rightarrow> dflt | Some v \<Rightarrow> v)"

text \<open>\<^verbatim>\<open>d[k]\<close> raises \<^verbatim>\<open>KeyError\<close> on a missing key.\<close>

definition dict_item :: "kwargs \<Rightarrow> string \<Rightarrow> error + pyval" where
  "dict_item d k = (case map_of d k of None \<Rightarrow> Inl (KeyError k) | Some v \<Rightarrow> Inr v)"

text \<open>\<^verbatim>\<open>s.startswith(p)\<close>.\<close>

definition startswith :: "string \<Rightarrow> string \<Rightarrow> bool" where
  "startswith s p = (take (length p) s = p)"

text \<open>\<^verbatim>\<open>value.__class__.__name__\<close>; text is \<^verbatim>\<open>unicode\<close> under
  \<^verbatim>\<open>unicode_literals\<close>.\<close>

fun class_name :: "pyval \<Rightarrow> string" where
  "class_name (Str _) = ''unicode''"
| "class_name NoneVal = ''NoneType''"
| "class_name (Obj c _) = c"

section \<open>Regular expressions of the event filters\<close>

text \<open>
  The fragment of Python's \<^verbatim>\<open>re\<close> syntax that the two filter patterns of
  \<^verbatim>\<open>start_services\<close> use: \<^verbatim>\<open>^\<close>, \<^verbatim>\<open>$\<close>, \<^verbatim>\<open>.\<close>, an escaped literal, \<^verbatim>\<open>*\<close>,
  concatenation and the negative lookahead \<^verbatim>\<open>(?!...)\<close>.
\<close>

datatype regex =
    Bol
  | Eol
  | AnyChar
  | Lit char
  | Star regex
  | Seq regex regex
  | NegLookahead regex

definition newline :: char where
  "newline = CHR 0x0A"

text \<open>
  All the positions a repetition can stop at, from position \<open>i\<close>, the longest
  first. An iteration that consumes nothing is not repeated; \<open>n\<close> bounds the
  number of iterations by the characters that are left.
\<close>

fun star_from :: "(nat \<Rightarrow> nat list) \<Rightarrow> nat \<Rightarrow> nat \<Rightarrow> nat list" where
  "star_from step 0 i = [i]"
| "star_from step (Suc n) i =
     concat (map (star_from step n) (filter (\<lambda>j. i < j) (step i))) @ [i]"

text \<open>
  \<open>ends r s i\<close>: the positions where a match of \<open>r\<close> that starts at position \<open>i\<close>
  of \<open>s\<close> can end, in the order the backtracking matcher tries them. Without
  flags, \<^verbatim>\<open>.\<close> is any character but a newline, \<^verbatim>\<open>^\<close> holds at the start of the
  string only, and \<^verbatim>\<open>$\<close> holds at the end of the string and just before a
  newline that ends the string.
\<close>

primrec ends :: "regex \<Rightarrow> string \<Rightarrow> nat \<Rightarrow> nat list" where
  "ends Bol s = (\<lambda>i. if i = 0 then [i] else [])"
| "ends Eol s = (\<lambda>i. if i = length s \<or> (Suc i = length s \<and> s ! i = newline)
                      then [i] else [])"
| "ends AnyChar s = (\<lambda>i. if i < length s \<and> s ! i \<noteq> newline then [Suc i] else [])"
| "ends (Lit c) s = (\<lambda>i. if i < length s \<and> s ! i = c then [Suc i] else [])"
| "ends (Star r) s = (\<lambda>i. star_from (ends r s) (length s - i) i)"
| "ends (Seq a b) s = (\<lambda>i. concat (map (ends b s) (ends a s i)))"
| "ends (NegLookahead r) s = (\<lambda>i. if ends r s i = [] then [i] else [])"

text \<open>\<^verbatim>\<open>re.match(pattern, s)\<close> is truthy when the pattern matches at the start of \<open>s\<close>.\<close>

definition re_match :: "regex \<Rightarrow> string \<Rightarrow> bool" where
  "re_match pattern s = (ends pattern s 0 \<noteq> [])"

text \<open>\<^verbatim>\<open>r'.*\.whl$'\<close>\<close>

definition WHL :: regex where
  "WHL = Seq (Star AnyChar)
           (Seq (Lit (CHR ''.'')) (Seq (Lit (CHR ''w'')) (Seq (Lit (CHR ''h''))
             (Seq (Lit (CHR ''l'')) Eol))))"

text \<open>\<^verbatim>\<open>r'^(?!.*\.whl$)'\<close>\<close>

definition NOT_WHL :: regex where
  "NOT_WHL = Seq Bol (NegLookahead WHL)"

section \<open>The shared state and the collaborators\<close>

datatype service = Downloader | Curdler | Dependencer | Installer | Uploader

text \<open>
  Every call the orchestrator makes on a collaborator (logger, installed-package
  database, State Tracker, index, services, standard output) is recorded, in
  order, with its arguments.
\<close>

datatype call =
    LoggerLevel nat string "pyval list"
  | CheckInstalled string
  | ShouldQueue string
  | FilePackage string pyval
  | MarkRetrieved string pyval
  | MarkBuilt string pyval
  | MarkFailed string pyval
  | BestVersion string
  | IndexGet string
  | Queue service string string kwargs
  | Start service
  | Join service
  | GetServersToUpdate
  | Sleep
  | StdoutWrite string
  | StdoutFlush

record 'm world =
  maestro :: 'm
  trace :: "call list"

text \<open>
  The State Tracker (\<^verbatim>\<open>curdling/maestro.py\<close>) is not among the sources: its
  operations and views are parameters, over any representation \<open>'m\<close> of its
  state. \<open>best_version\<close> fails with \<open>NotFoundError\<close> on an unknown name.
\<close>

record 'm maestro_ops =
  should_queue :: "'m \<Rightarrow> string \<Rightarrow> bool"
  file_package :: "string \<Rightarrow> pyval \<Rightarrow> 'm \<Rightarrow> 'm"
  mark_retrieved :: "string \<Rightarrow> pyval \<Rightarrow> 'm \<Rightarrow> 'm"
  mark_built :: "string \<Rightarrow> pyval \<Rightarrow> 'm \<Rightarrow> 'm"
  mark_failed :: "string \<Rightarrow> pyval \<Rightarrow> 'm \<Rightarrow> 'm"
  best_version :: "'m \<Rightarrow> string \<Rightarrow> error + (string \<times> kwargs)"
  mapping :: "'m \<Rightarrow> string list"
  pending_packages :: "'m \<Rightarrow> string list"
  retrieved :: "'m \<Rightarrow> string list"
  failed :: "'m \<Rightarrow> string list"

text \<open>
  The other collaborators, none of them among the sources: the installed-package
  database, the index (\<open>None\<close> is \<^verbatim>\<open>PackageNotFound\<close>), the configuration's
  \<^verbatim>\<open>upload\<close> option, the downloader's list of servers to update, what the
  services' worker threads do to the shared state while the orchestrator
  sleeps, and the double-precision computation
  \<^verbatim>\<open>int(built / float(total) * 100.0)\<close> for a non-zero \<open>total\<close>.
\<close>

record 'm env =
  check_installed :: "string \<Rightarrow> bool"
  index_get :: "string \<Rightarrow> string option"
  conf_upload :: bool
  get_servers_to_update :: "'m world \<Rightarrow> (string \<times> string list) list"
  workers :: "'m world \<Rightarrow> 'm world"
  float_percent :: "int \<Rightarrow> int \<Rightarrow> int"

definition called :: "call \<Rightarrow> 'm world \<Rightarrow> 'm world" where
  "called c w = w\<lparr>trace := trace w @ [c]\<rparr>"

text \<open>The requests a service has been handed, oldest first.\<close>

fun queued_of :: "service \<Rightarrow> call list \<Rightarrow> (string \<times> string \<times> kwargs) list" where
  "queued_of sv [] = []"
| "queued_of sv (Queue sv' requester package data # cs) =
     (if sv' = sv then (requester, package, data) # queued_of sv cs else queued_of sv cs)"
| "queued_of sv (_ # cs) = queued_of sv cs"

definition queued :: "service \<Rightarrow> 'm world \<Rightarrow> (string \<times> string \<times> kwargs) list" where
  "queued sv w = queued_of sv (trace w)"

text \<open>The keys the index has been asked for, oldest first.\<close>

fun index_lookups_of :: "call list \<Rightarrow> string list" where
  "index_lookups_of [] = []"
| "index_lookups_of (IndexGet k # cs) = k # index_lookups_of cs"
| "index_lookups_of (_ # cs) = index_lookups_of cs"

definition index_lookups :: "'m world \<Rightarrow> string list" where
  "index_lookups w = index_lookups_of (trace w)"

text \<open>\<^verbatim>\<open>service.queue(requester, package, **data)\<close>\<close>

definition service_queue :: "service \<Rightarrow> string \<Rightarrow> string \<Rightarrow> kwargs \<Rightarrow> 'm world \<Rightarrow> 'm world" where
  "service_queue sv requester package data w = called (Queue sv requester package data) w"

text \<open>The State Tracker's transitions, as calls on the shared state.\<close>

definition maestro_file_package :: "'m maestro_ops \<Rightarrow> string \<Rightarrow> pyval \<Rightarrow> 'm world \<Rightarrow> 'm world" where
  "maestro_file_package M package dependency_of w =
     called (FilePackage package dependency_of)
       (w\<lparr>maestro := file_package M package dependency_of (maestro w)\<rparr>)"

definition maestro_mark_retrieved :: "'m maestro_ops \<Rightarrow> string \<Rightarrow> pyval \<Rightarrow> 'm world \<Rightarrow> 'm world" where
  "maestro_mark_retrieved M package v w =
     called (MarkRetrieved package v) (w\<lparr>maestro := mark_retrieved M package v (maestro w)\<rparr>)"

definition maestro_mark_built :: "'m maestro_ops \<Rightarrow> string \<Rightarrow> pyval \<Rightarrow> 'm world \<Rightarrow> 'm world" where
  "maestro_mark_built M package v w =
     called (MarkBuilt package v) (w\<lparr>maestro := mark_built M package v (maestro w)\<rparr>)"

definition maestro_mark_failed :: "'m maestro_ops \<Rightarrow> string \<Rightarrow> pyval \<Rightarrow> 'm world \<Rightarrow> 'm world" where
  "maestro_mark_failed M package v w =
     called (MarkFailed package v) (w\<lparr>maestro := mark_failed M package v (maestro w)\<rparr>)"

section \<open>The module's constants\<close>

definition SUCCESS :: int where
  "SUCCESS = 0"

definition FAILURE :: int where
  "FAILURE = 1"

definition PACKAGE_BLACKLIST :: "string list" where
  "PACKAGE_BLACKLIST = [''setuptools'']"

section \<open>Install.request\_install\<close>

definition refusal_message :: string where
  "refusal_message =
     ''Cowardly refusing to install blacklisted requirement `%s'' @ [CHR 0x27]"

text \<open>
  The cascade after \<open>file_package\<close>: the prebuilt artifact, then the compressed
  source, then the downloader. Every branch returns \<^verbatim>\<open>False\<close>. Of the calls
  inside each \<^verbatim>\<open>try\<close>, the index lookup is the one that raises
  \<^verbatim>\<open>PackageNotFound\<close>; \<open>queue\<close> and \<open>mark_retrieved\<close> return.
\<close>

definition cascade :: "'m maestro_ops \<Rightarrow> 'm env \<Rightarrow> string \<Rightarrow> string \<Rightarrow> kwargs \<Rightarrow> 'm world
    \<Rightarrow> bool \<times> 'm world" where
  "cascade M E requester package data w =
     (let w1 = called (IndexGet (package @ '';whl'')) w in
      case index_get E (package @ '';whl'') of
        Some path \<Rightarrow>
          (False, maestro_mark_retrieved M package (Str ''whl'')
                    (service_queue Dependencer requester package [(''path'', Str path)] w1))
      | None \<Rightarrow>
          (let w2 = called (IndexGet (package @ '';~whl'')) w1 in
           case index_get E (package @ '';~whl'') of
             Some path \<Rightarrow>
               (False, maestro_mark_retrieved M package (Str ''compressed'')
                         (service_queue Curdler requester package [(''path'', Str path)] w2))
           | None \<Rightarrow> (False, service_queue Downloader requester package data w2)))"

definition request_install :: "'m maestro_ops \<Rightarrow> 'm env \<Rightarrow> string \<Rightarrow> string \<Rightarrow> kwargs \<Rightarrow> 'm world
    \<Rightarrow> bool \<times> 'm world" where
  "request_install M E requester package data w =
     (case find (startswith package) PACKAGE_BLACKLIST of
        Some blacklisted \<Rightarrow> (False, called (LoggerLevel 2 refusal_message [Str package]) w)
      | None \<Rightarrow>
          (let w1 = called (CheckInstalled package) w in
           if check_installed E package then (True, w1)
           else
             (let w2 = called (ShouldQueue package) w1 in
              if \<not> should_queue M (maestro w2) package then (False, w2)
              else cascade M E requester package data
                     (maestro_file_package M package (dict_get data ''dependency_of'' NoneVal) w2))))"

section \<open>Requesters that overlap\<close>

text \<open>
  \<open>request_install\<close> is a handler of the dependencer's \<^verbatim>\<open>dependency_found\<close>
  event and is called from the orchestrator's own thread as well. A call is cut
  here in two phases, each a run of consecutive statements of the source: the
  checks up to and including \<open>should_queue\<close>, and the rest from \<open>file_package\<close>
  on. A thread is at its entry, past the check, or has returned; a schedule
  names the thread that runs its next phase. The source holds no lock between
  the two phases.
\<close>

datatype pc = Entry | Checked | Returned bool

record thread =
  t_requester :: string
  t_package :: string
  t_data :: kwargs
  t_pc :: pc

definition check_phase :: "'m maestro_ops \<Rightarrow> 'm env \<Rightarrow> string \<Rightarrow> 'm world \<Rightarrow> pc \<times> 'm world" where
  "check_phase M E package w =
     (case find (startswith package) PACKAGE_BLACKLIST of
        Some found \<Rightarrow>
          (Returned False, called (LoggerLevel 2 refusal_message [Str package]) w)
      | None \<Rightarrow>
          (let w1 = called (CheckInstalled package) w in
           if check_installed E package then (Returned True, w1)
           else
             (let w2 = called (ShouldQueue package) w1 in
              if \<not> should_queue M (maestro w2) package then (Returned False, w2)
              else (Checked, w2))))"

definition file_phase :: "'m maestro_ops \<Rightarrow> 'm env \<Rightarrow> string \<Rightarrow> string \<Rightarrow> kwargs \<Rightarrow> 'm world
    \<Rightarrow> bool \<times> 'm world" where
  "file_phase M E requester package data w =
     cascade M E requester package data
       (maestro_file_package M package (dict_get data ''dependency_of'' NoneVal) w)"

definition thread_step :: "'m maestro_ops \<Rightarrow> 'm env \<Rightarrow> thread \<Rightarrow> 'm world \<Rightarrow> thread \<times> 'm world" where
  "thread_step M E t w =
     (case t_pc t of
        Entry \<Rightarrow>
          (case check_phase M E (t_package t) w of (pc', w') \<Rightarrow> (t\<lparr>t_pc := pc'\<rparr>, w'))
      | Checked \<Rightarrow>
          (case file_phase M E (t_requester t) (t_package t) (t_data t) w of
             (r, w') \<Rightarrow> (t\<lparr>t_pc := Returned r\<rparr>, w'))
      | Returned r \<Rightarrow> (t, w))"

fun interleave :: "'m maestro_ops \<Rightarrow> 'm env \<Rightarrow> nat list \<Rightarrow> thread list \<Rightarrow> 'm world
    \<Rightarrow> thread list \<times> 'm world" where
  "interleave M E [] ts w = (ts, w)"
| "interleave M E (i # schedule) ts w =
     (if i < length ts
      then (case thread_step M E (ts ! i) w of
              (t', w') \<Rightarrow> interleave M E schedule (ts[i := t']) w')
      else interleave M E schedule ts w)"

definition requesting :: "string \<Rightarrow> string \<Rightarrow> kwargs \<Rightarrow> thread" where
  "requesting requester package data =
     \<lparr> t_requester = requester, t_package = package, t_data = data, t_pc = Entry \<rparr>"

section \<open>The event filters and adapters\<close>

text \<open>
  A handler bound to an event is called with the requester, the package and the
  event's payload; it raises or leaves a new shared state.
\<close>

type_synonym 'm handler = "string \<Rightarrow> string \<Rightarrow> kwargs \<Rightarrow> 'm world \<Rightarrow> error + 'm world"

text \<open>The bound method \<^verbatim>\<open>service.queue\<close> as a handler.\<close>

definition queue_handler :: "service \<Rightarrow> 'm handler" where
  "queue_handler sv requester package data w = Inr (service_queue sv requester package data w)"

text \<open>
  \<^verbatim>\<open>only(func, pattern)\<close>: \<^verbatim>\<open>re.match\<close> accepts text only and raises
  \<^verbatim>\<open>TypeError\<close> on anything else.
\<close>

definition only :: "'m handler \<Rightarrow> regex \<Rightarrow> 'm handler" where
  "only func pattern requester package data w =
     (case dict_get data ''path'' (Str []) of
        Str p \<Rightarrow> if re_match pattern p then func requester package data w else Inr w
      | _ \<Rightarrow> Inl TypeError)"

text \<open>\<^verbatim>\<open>mark(func)\<close>: the subscript is evaluated before \<open>func\<close> is called.\<close>

definition mark :: "(string \<Rightarrow> pyval \<Rightarrow> 'm world \<Rightarrow> 'm world) \<Rightarrow> 'm handler" where
  "mark func requester package data w =
     (case dict_item data ''path'' of
        Inl e \<Rightarrow> Inl e
      | Inr v \<Rightarrow> Inr (func package v w))"

text \<open>\<^verbatim>\<open>request_install\<close> as the handler of \<^verbatim>\<open>dependency_found\<close>.\<close>

definition request_install_handler :: "'m maestro_ops \<Rightarrow> 'm env \<Rightarrow> 'm handler" where
  "request_install_handler M E requester package data w =
     Inr (snd (request_install M E requester package data w))"

datatype event = Finished | Failed | DependencyFound | Built

text \<open>The pipeline \<^verbatim>\<open>start_services\<close> builds: the handlers of each event, in
  registration order.\<close>

fun connected :: "'m maestro_ops \<Rightarrow> 'm env \<Rightarrow> service \<Rightarrow> event \<Rightarrow> 'm handler list" where
  "connected M E Downloader Finished =
     [only (queue_handler Curdler) NOT_WHL,
      only (queue_handler Dependencer) WHL,
      mark (maestro_mark_retrieved M)]"
| "connected M E Downloader Failed = [mark (maestro_mark_failed M)]"
| "connected M E Curdler Finished = [queue_handler Dependencer]"
| "connected M E Curdler Failed = [mark (maestro_mark_failed M)]"
| "connected M E Dependencer DependencyFound = [request_install_handler M E]"
| "connected M E Dependencer Built = [mark (maestro_mark_built M)]"
| "connected M E _ _ = []"

section \<open>InstallProgress\<close>

definition has_events :: "'m maestro_ops \<Rightarrow> 'm world \<Rightarrow> bool" where
  "has_events M w = (pending_packages M (maestro w) \<noteq> [])"

definition digit_char :: "nat \<Rightarrow> char" where
  "digit_char d = char_of (48 + d)"

fun str_nat :: "nat \<Rightarrow> string" where
  "str_nat n = (if n < 10 then [digit_char n] else str_nat (n div 10) @ [digit_char (n mod 10)])"

declare str_nat.simps [simp del]

definition str_int :: "int \<Rightarrow> string" where
  "str_int i = (if i < 0 then CHR ''-'' # str_nat (nat (- i)) else str_nat (nat i))"

text \<open>The format specification \<^verbatim>\<open>{:>2}\<close>.\<close>

definition rjust :: "nat \<Rightarrow> string \<Rightarrow> string" where
  "rjust width s = replicate (width - length s) (CHR '' '') @ s"

text \<open>\<^verbatim>\<open>int(built / float(total) * 100.0)\<close>: dividing by \<open>0.0\<close> raises.\<close>

definition percent_of :: "'m env \<Rightarrow> int \<Rightarrow> int \<Rightarrow> error + int" where
  "percent_of E built total_n =
     (if total_n = 0 then Inl ZeroDivisionError else Inr (float_percent E built total_n))"

definition update :: "'m maestro_ops \<Rightarrow> 'm env \<Rightarrow> 'm world \<Rightarrow> error + 'm world" where
  "update M E w =
     (let total_n = int (length (mapping M (maestro w)));
          pending = int (length (pending_packages M (maestro w)));
          built = total_n - pending
      in if total_n = 0 then Inr w
         else
           (case percent_of E built total_n of
              Inl e \<Rightarrow> Inl e
            | Inr percent \<Rightarrow>
                (let percent_count = percent div 10;
                     progress_bar = replicate (nat percent_count) (CHR ''#'')
                                    @ replicate (nat (10 - percent_count)) (CHR '' '');
                     msg = [[CHR 0x0D] @ ''['' @ progress_bar @ ''] '' @ rjust 2 (str_int percent)
                              @ ''%. '',
                            ''('' @ str_int total_n @ '' requested, ''
                              @ str_int (int (length (retrieved M (maestro w))))
                              @ '' retrieved, '' @ str_int built @ '' built)'']
                           @ (if total_n = built then [[newline]] else [])
                 in Inr (called StdoutFlush (called (StdoutWrite (concat msg)) w)))))"

section \<open>Install.report, run\_installer, run\_uploader and run\<close>

fun report_each :: "'m maestro_ops \<Rightarrow> string list \<Rightarrow> 'm world \<Rightarrow> error + 'm world" where
  "report_each M [] w = Inr w"
| "report_each M (package # ps) w =
     (case best_version M (maestro w) package of
        Inl e \<Rightarrow> Inl e
      | Inr (_, version) \<Rightarrow>
          (let data = dict_get version ''data'' NoneVal
           in report_each M ps
                (called (LoggerLevel 0 '' * %s: %s'' [Str (class_name data), data])
                   (called (BestVersion package) w))))"

definition report :: "'m maestro_ops \<Rightarrow> 'm world \<Rightarrow> error + 'm world" where
  "report M w =
     report_each M (failed M (maestro w))
       (if failed M (maestro w) \<noteq> []
        then called (LoggerLevel 0 ''Some cheese was spilled in the process:'' []) w
        else w)"

fun install_each :: "'m maestro_ops \<Rightarrow> string list \<Rightarrow> 'm world \<Rightarrow> error + 'm world" where
  "install_each M [] w = Inr w"
| "install_each M (package # ps) w =
     (case best_version M (maestro w) package of
        Inl e \<Rightarrow> Inl e
      | Inr (_, version) \<Rightarrow>
          (case dict_item version ''data'' of
             Inl e \<Rightarrow> Inl e
           | Inr path \<Rightarrow>
               install_each M ps
                 (service_queue Installer ''main'' package [(''path'', path)]
                    (called (BestVersion package) w))))"

definition run_installer :: "'m maestro_ops \<Rightarrow> 'm world \<Rightarrow> error + 'm world" where
  "run_installer M w =
     (case install_each M (mapping M (maestro w)) (called (Start Installer) w) of
        Inl e \<Rightarrow> Inl e
      | Inr w' \<Rightarrow> Inr (called (Join Installer) w'))"

fun upload_packages :: "'m maestro_ops \<Rightarrow> string \<Rightarrow> string list \<Rightarrow> 'm world \<Rightarrow> error + 'm world" where
  "upload_packages M server [] w = Inr w"
| "upload_packages M server (package # ps) w =
     (case best_version M (maestro w) package of
        Inl e \<Rightarrow> Inl e
      | Inr (_, data) \<Rightarrow>
          upload_packages M server ps
            (service_queue Uploader ''main'' package
               [(''path'', dict_get data ''data'' NoneVal), (''server'', Str server)]
               (called (BestVersion package) w)))"

fun upload_servers :: "'m maestro_ops \<Rightarrow> (string \<times> string list) list \<Rightarrow> 'm world
    \<Rightarrow> error + 'm world" where
  "upload_servers M [] w = Inr w"
| "upload_servers M ((server, packages) # fs) w =
     (case upload_packages M server packages w of
        Inl e \<Rightarrow> Inl e
      | Inr w' \<Rightarrow> upload_servers M fs w')"

definition run_uploader :: "'m maestro_ops \<Rightarrow> 'm env \<Rightarrow> 'm world \<Rightarrow> error + 'm world" where
  "run_uploader M E w =
     (let failures = get_servers_to_update E w;
          w1 = called GetServersToUpdate w
      in if failures = [] then Inr w1
         else
           (case upload_servers M failures (called (Start Uploader) w1) of
              Inl e \<Rightarrow> Inl e
            | Inr w' \<Rightarrow> Inr (called (Join Uploader) w')))"

text \<open>\<^verbatim>\<open>time.sleep(0.5)\<close>: the worker threads run meanwhile.\<close>

definition sleep :: "'m env \<Rightarrow> 'm world \<Rightarrow> 'm world" where
  "sleep E w = workers E (called Sleep w)"

text \<open>
  The polling loop of \<^verbatim>\<open>run\<close>. It ends when the pending set is found empty, and
  it need not end: \<open>None\<close> is the loop that never does.
\<close>

partial_function (option) poll :: "'m maestro_ops \<Rightarrow> 'm env \<Rightarrow> 'm world \<Rightarrow> (error + 'm world) option"
  where
  "poll M E w =
     (if has_events M w
      then (case update M E (sleep E w) of
              Inl e \<Rightarrow> Some (Inl e)
            | Inr w' \<Rightarrow> poll M E w')
      else Some (Inr w))"

declare poll.simps [code]

text \<open>What \<^verbatim>\<open>run\<close> does once the loop has ended in \<open>w\<close>.\<close>

definition run_settled :: "'m maestro_ops \<Rightarrow> 'm env \<Rightarrow> 'm world \<Rightarrow> error + int \<times> 'm world" where
  "run_settled M E w =
     (if failed M (maestro w) \<noteq> []
      then (case report M w of
              Inl e \<Rightarrow> Inl e
            | Inr w' \<Rightarrow> Inr (FAILURE, w'))
      else
        (case run_installer M w of
           Inl e \<Rightarrow> Inl e
         | Inr w1 \<Rightarrow>
             if conf_upload E
             then (case run_uploader M E w1 of
                     Inl e \<Rightarrow> Inl e
                   | Inr w2 \<Rightarrow> Inr (SUCCESS, w2))
             else Inr (SUCCESS, w1)))"

definition run :: "'m maestro_ops \<Rightarrow> 'm env \<Rightarrow> 'm world \<Rightarrow> (error + int \<times> 'm world) option" where
  "run M E w =
     (case poll M E w of
        None \<Rightarrow> None
      | Some (Inl e) \<Rightarrow> Some (Inl e)
      | Some (Inr w') \<Rightarrow> Some (run_settled M E w'))"

section \<open>Predicates of the statements\<close>

text \<open>The loop over \<^verbatim>\<open>PACKAGE_BLACKLIST\<close> finds a prefix of the package.\<close>

definition blacklisted :: "string \<Rightarrow> bool" where
  "blacklisted package = list_ex (startswith package) PACKAGE_BLACKLIST"

text \<open>The calls on the installer, among all the calls made so far.\<close>

fun is_installer_call :: "call \<Rightarrow> bool" where
  "is_installer_call (Queue sv _ _ _) = (sv = Installer)"
| "is_installer_call (Start sv) = (sv = Installer)"
| "is_installer_call (Join sv) = (sv = Installer)"
| "is_installer_call _ = False"

definition installer_calls :: "'m world \<Rightarrow> call list" where
  "installer_calls w = filter is_installer_call (trace w)"

text \<open>
  The State Tracker knows a package when \<open>best_version\<close> returns for it; the
  package is installable when the version it returns has a \<^verbatim>\<open>data\<close> entry,
  which \<open>version_data\<close> reads.
\<close>

definition known :: "'m maestro_ops \<Rightarrow> 'm \<Rightarrow> string \<Rightarrow> bool" where
  "known M m package = (case best_version M m package of Inl _ \<Rightarrow> False | Inr _ \<Rightarrow> True)"

definition installable :: "'m maestro_ops \<Rightarrow> 'm \<Rightarrow> string \<Rightarrow> bool" where
  "installable M m package =
     (case best_version M m package of
        Inl _ \<Rightarrow> False
      | Inr (_, version) \<Rightarrow> map_of version ''data'' \<noteq> None)"

definition version_data :: "'m maestro_ops \<Rightarrow> 'm \<Rightarrow> string \<Rightarrow> pyval" where
  "version_data M m package =
     (case best_version M m package of
        Inl _ \<Rightarrow> NoneVal
      | Inr (_, version) \<Rightarrow> dict_get version ''data'' NoneVal)"

text \<open>Every package the downloader lists for a server is known to the State Tracker.\<close>

definition uploadable :: "'m maestro_ops \<Rightarrow> 'm env \<Rightarrow> 'm \<Rightarrow> bool" where
  "uploadable M E m =
     (\<forall>u. maestro u = m \<longrightarrow>
        (\<forall>sp \<in> set (get_servers_to_update E u). \<forall>p \<in> set (snd sp). known M m p))"

text \<open>The invariant of the polling loop: workers that leave the installer alone
  leave it alone until the loop ends, and the loop ends with nothing pending.\<close>

definition settles_to :: "'m maestro_ops \<Rightarrow> 'm env \<Rightarrow> 'm world \<Rightarrow> error + 'm world \<Rightarrow> bool" where
  "settles_to M E w y =
     (\<forall>w1. y = Inr w1 \<longrightarrow> (\<forall>u. installer_calls (workers E u) = installer_calls u) \<longrightarrow>
        installer_calls w1 = installer_calls w \<and> pending_packages M (maestro w1) = [])"

section \<open>A State Tracker and an environment to run the orchestrator on\<close>

text \<open>
  Modelled from the spec: the State Tracker, \<^verbatim>\<open>curdling/maestro.py\<close>, which is
  not among the sources. It keeps the attempts in the order they were filed,
  each with its package, its status and the data stored with it.
  \<open>should_queue\<close> holds iff no attempt for the name is queued; \<open>file_package\<close>
  files a queued attempt unless there is one already; the \<open>mark\<close> operations
  move the queued attempt to its terminal status and are no-ops without one;
  \<open>best_version\<close> takes the most advanced attempt (built, then retrieved, then
  queued, then failed), the most recent among equals, and fails on an unknown
  name; a package is pending while an attempt is queued, retrieved with a
  retrieved or built attempt, and failed when all its attempts failed. The
  general statements below hold for every State Tracker; this one instantiates
  them.
\<close>

datatype status = StQueued | StRetrieved | StBuilt | StFailed

type_synonym attempt = "string \<times> status \<times> pyval"

type_synonym tracker = "attempt list"

definition attempts_of :: "string \<Rightarrow> tracker \<Rightarrow> tracker" where
  "attempts_of package m = filter (\<lambda>(n, s, d). n = package) m"

definition has_queued :: "tracker \<Rightarrow> string \<Rightarrow> bool" where
  "has_queued m package = list_ex (\<lambda>(n, s, d). s = StQueued) (attempts_of package m)"

fun rank :: "status \<Rightarrow> nat" where
  "rank StFailed = 0"
| "rank StQueued = 1"
| "rank StRetrieved = 2"
| "rank StBuilt = 3"

definition better :: "attempt \<Rightarrow> attempt \<Rightarrow> attempt" where
  "better best a = (if rank (fst (snd best)) \<le> rank (fst (snd a)) then a else best)"

definition tracker_best_version :: "tracker \<Rightarrow> string \<Rightarrow> error + (string \<times> kwargs)" where
  "tracker_best_version m package =
     (case attempts_of package m of
        [] \<Rightarrow> Inl (NotFoundError package)
      | a # as \<Rightarrow> Inr (''0'', [(''data'', snd (snd (foldl better a as)))]))"

definition tracker_mark :: "status \<Rightarrow> string \<Rightarrow> pyval \<Rightarrow> tracker \<Rightarrow> tracker" where
  "tracker_mark st package v m =
     map (\<lambda>(n, s, d). if n = package \<and> s = StQueued then (n, st, v) else (n, s, d)) m"

definition tracker_names :: "(status \<Rightarrow> bool) \<Rightarrow> tracker \<Rightarrow> string list" where
  "tracker_names P m = remdups (map fst (filter (\<lambda>(n, s, d). P s) m))"

definition tracker_ops :: "tracker maestro_ops" where
  "tracker_ops =
     \<lparr> should_queue = (\<lambda>m package. \<not> has_queued m package),
       file_package = (\<lambda>package dependency_of m.
          if has_queued m package then m else m @ [(package, StQueued, NoneVal)]),
       mark_retrieved = tracker_mark StRetrieved,
       mark_built = tracker_mark StBuilt,
       mark_failed = tracker_mark StFailed,
       best_version = tracker_best_version,
       mapping = tracker_names (\<lambda>s. True),
       pending_packages = tracker_names (\<lambda>s. s = StQueued),
       retrieved = tracker_names (\<lambda>s. s = StRetrieved \<or> s = StBuilt),
       failed = (\<lambda>m. filter (\<lambda>package. list_all (\<lambda>(n, s, d). s = StFailed) (attempts_of package m))
                        (tracker_names (\<lambda>s. True) m)) \<rparr>"

text \<open>
  An environment: an index and a list of installed packages, no upload, workers
  that apply \<open>act\<close> to the State Tracker at every sleep, and the percentage by
  integer division. The last is a stand-in: the double-precision computation
  truncates a rounded quotient and can be one less (57 for 29 of 50, where
  integer division gives 58); the two agree at 0 and at 100 per cent, the only
  values the runs below reach, and every general statement takes the
  computation as a parameter.
\<close>

definition local_env :: "(string \<times> string) list \<Rightarrow> string list \<Rightarrow> (tracker \<Rightarrow> tracker)
    \<Rightarrow> tracker env" where
  "local_env idx installed act =
     \<lparr> check_installed = (\<lambda>package. package \<in> set installed),
       index_get = map_of idx,
       conf_upload = False,
       get_servers_to_update = (\<lambda>w. []),
       workers = (\<lambda>w. w\<lparr>maestro := act (maestro w)\<rparr>),
       float_percent = (\<lambda>built total_n. built * 100 div total_n) \<rparr>"

definition fresh :: "tracker world" where
  "fresh = \<lparr> maestro = [], trace = [] \<rparr>"

text \<open>One package requested and still queued.\<close>

definition flask_queued :: "tracker world" where
  "flask_queued = \<lparr> maestro = [(''flask'', StQueued, NoneVal)], trace = [] \<rparr>"

text \<open>Two indexes for one package: both representations, and the compressed
  source alone.\<close>

definition both_index :: "(string \<times> string) list" where
  "both_index = [(''flask;~whl'', ''/idx/flask.tar.gz''), (''flask;whl'', ''/idx/flask.whl'')]"

definition source_index :: "(string \<times> string) list" where
  "source_index = [(''flask;~whl'', ''/idx/flask.tar.gz'')]"

text \<open>Event payloads: a prebuilt artifact, a source archive, and a failure
  that carries no path.\<close>

definition wheel_payload :: kwargs where
  "wheel_payload = [(''path'', Str ''/tmp/flask.whl'')]"

definition sdist_payload :: kwargs where
  "sdist_payload = [(''path'', Str ''/tmp/flask.tar.gz'')]"

definition failure_payload :: kwargs where
  "failure_payload = [(''exception'', Obj ''IOError'' ''connection reset'')]"

text \<open>Workers that build the queued package, or fail it, during the first sleep;
  and the states the polling loop then ends in.\<close>

definition build_flask :: "tracker env" where
  "build_flask = local_env [] [] (tracker_mark StBuilt ''flask'' (Str ''/wheels/flask.whl''))"

definition fail_flask :: "tracker env" where
  "fail_flask = local_env [] [] (tracker_mark StFailed ''flask'' (Obj ''IOError'' ''reset''))"

definition progress_done :: "string \<Rightarrow> string" where
  "progress_done n_retrieved =
     [CHR 0x0D] @ ''[##########] 100%. (1 requested, '' @ n_retrieved @ '' retrieved, 1 built)''
       @ [newline]"

definition flask_built :: "tracker world" where
  "flask_built =
     \<lparr> maestro = [(''flask'', StBuilt, Str ''/wheels/flask.whl'')],
       trace = [Sleep, StdoutWrite (progress_done ''1''), StdoutFlush] \<rparr>"

definition flask_failed :: "tracker world" where
  "flask_failed =
     \<lparr> maestro = [(''flask'', StFailed, Obj ''IOError'' ''reset'')],
       trace = [Sleep, StdoutWrite (progress_done ''0''), StdoutFlush] \<rparr>"

text \<open>Two requesters of one package: the orchestrator's thread and a worker of
  the dependencer.\<close>

definition two_requesters :: "thread list" where
  "two_requesters =
     [requesting ''main'' ''flask'' [],
      requesting ''dependencer'' ''flask'' [(''dependency_of'', Str ''jinja2'')]]"

section \<open>Calls and what they leave unchanged\<close>

lemma find_blacklist:
  "find (startswith package) PACKAGE_BLACKLIST = None \<longleftrightarrow> \<not> blacklisted package"
  by (auto simp: blacklisted_def find_None_iff list_ex_iff)

lemma queued_of_append: "queued_of sv (xs @ ys) = queued_of sv xs @ queued_of sv ys"
  by (induction sv xs rule: queued_of.induct) simp_all

lemma index_lookups_of_append:
  "index_lookups_of (xs @ ys) = index_lookups_of xs @ index_lookups_of ys"
  by (induction xs rule: index_lookups_of.induct) simp_all

lemma maestro_called [simp]: "maestro (called c w) = maestro w"
  by (simp add: called_def)

lemma trace_called [simp]: "trace (called c w) = trace w @ [c]"
  by (simp add: called_def)

lemma queued_called: "queued sv (called c w) = queued sv w @ queued_of sv [c]"
  by (simp add: queued_def queued_of_append)

lemma index_lookups_called:
  "index_lookups (called c w) = index_lookups w @ index_lookups_of [c]"
  by (simp add: index_lookups_def index_lookups_of_append)

lemma queued_maestro_update [simp]: "queued sv (w\<lparr>maestro := m\<rparr>) = queued sv w"
  by (simp add: queued_def)

lemma index_lookups_maestro_update [simp]:
  "index_lookups (w\<lparr>maestro := m\<rparr>) = index_lookups w"
  by (simp add: index_lookups_def)

lemma installer_calls_called:
  "installer_calls (called c w) = installer_calls w @ filter is_installer_call [c]"
  by (simp add: installer_calls_def)

lemma installer_calls_maestro_update [simp]:
  "installer_calls (w\<lparr>maestro := m\<rparr>) = installer_calls w"
  by (simp add: installer_calls_def)

lemmas tracker_defs =
  tracker_ops_def tracker_names_def tracker_mark_def tracker_best_version_def has_queued_def
  attempts_of_def better_def

lemmas effect_simps =
  queued_called index_lookups_called service_queue_def maestro_mark_retrieved_def
  maestro_file_package_def

section \<open>The decision procedure of request\_install\<close>

text \<open>
  C3. A package whose name starts with a prefix of the blacklist (which holds
  \<^verbatim>\<open>setuptools\<close>) is refused: \<open>request_install\<close> returns \<^verbatim>\<open>False\<close>, the only
  call it makes is the logger's, the State Tracker is as it was, no request is
  queued on any service and the index is not asked.
\<close>

theorem request_install_blacklisted:
  assumes "b \<in> set PACKAGE_BLACKLIST" and "startswith package b"
  shows "''setuptools'' \<in> set PACKAGE_BLACKLIST
       \<and> fst (request_install M E requester package data w) = False
       \<and> maestro (snd (request_install M E requester package data w)) = maestro w
       \<and> trace (snd (request_install M E requester package data w))
           = trace w @ [LoggerLevel 2 refusal_message [Str package]]
       \<and> (\<forall>sv. queued sv (snd (request_install M E requester package data w)) = queued sv w)
       \<and> index_lookups (snd (request_install M E requester package data w)) = index_lookups w"
proof -
  from assms have "blacklisted package"
    by (auto simp: blacklisted_def list_ex_iff)
  then obtain b' where "find (startswith package) PACKAGE_BLACKLIST = Some b'"
    using find_blacklist [of package] by (cases "find (startswith package) PACKAGE_BLACKLIST") auto
  then have "request_install M E requester package data w
      = (False, called (LoggerLevel 2 refusal_message [Str package]) w)"
    by (simp add: request_install_def)
  then show ?thesis by (simp add: effect_simps PACKAGE_BLACKLIST_def)
qed

theorem request_install_blacklisted_witness:
  "''setuptools'' \<in> set PACKAGE_BLACKLIST \<and> startswith ''setuptools-git'' ''setuptools''
   \<and> request_install tracker_ops (local_env [(''setuptools-git;whl'', ''/idx/sg.whl'')] [] id)
        ''main'' ''setuptools-git'' [] fresh
     = (False, \<lparr>maestro = [],
                trace = [LoggerLevel 2 refusal_message [Str ''setuptools-git'']]\<rparr>)"
proof -
  have h1: "''setuptools'' \<in> set PACKAGE_BLACKLIST"
    by (simp add: PACKAGE_BLACKLIST_def)
  have h2: "startswith ''setuptools-git'' ''setuptools''"
    by (simp add: startswith_def)
  from request_install_blacklisted [OF h1 h2,
      of tracker_ops "local_env [(''setuptools-git;whl'', ''/idx/sg.whl'')] [] id" "''main''" "[]" fresh]
  have "request_install tracker_ops (local_env [(''setuptools-git;whl'', ''/idx/sg.whl'')] [] id)
        ''main'' ''setuptools-git'' [] fresh
     = (False, \<lparr>maestro = [],
                trace = [LoggerLevel 2 refusal_message [Str ''setuptools-git'']]\<rparr>)"
    by (simp add: prod_eq_iff fresh_def)
  with h1 h2 show ?thesis by simp
qed

text \<open>
  C4. For a package that is not blacklisted and that the installed-package
  database reports installed, \<open>request_install\<close> returns \<^verbatim>\<open>True\<close> and makes no
  call but \<open>check_installed\<close>: the State Tracker is as it was, nothing is queued
  and the index is not asked.
\<close>

theorem request_install_installed:
  assumes "\<not> blacklisted package" and "check_installed E package"
  shows "fst (request_install M E requester package data w) = True
       \<and> maestro (snd (request_install M E requester package data w)) = maestro w
       \<and> trace (snd (request_install M E requester package data w))
           = trace w @ [CheckInstalled package]
       \<and> (\<forall>sv. queued sv (snd (request_install M E requester package data w)) = queued sv w)
       \<and> index_lookups (snd (request_install M E requester package data w)) = index_lookups w"
proof -
  have "request_install M E requester package data w = (True, called (CheckInstalled package) w)"
    using assms find_blacklist [of package] by (simp add: request_install_def)
  then show ?thesis by (simp add: effect_simps)
qed

theorem request_install_installed_witness:
  "\<not> blacklisted ''six'' \<and> check_installed (local_env [(''six;whl'', ''/idx/six.whl'')] [''six''] id) ''six''
   \<and> request_install tracker_ops (local_env [(''six;whl'', ''/idx/six.whl'')] [''six''] id)
        ''main'' ''six'' [] fresh
     = (True, \<lparr>maestro = [], trace = [CheckInstalled ''six'']\<rparr>)"
proof -
  have h1: "\<not> blacklisted ''six''"
    by (simp add: blacklisted_def PACKAGE_BLACKLIST_def startswith_def)
  have h2: "check_installed (local_env [(''six;whl'', ''/idx/six.whl'')] [''six''] id) ''six''"
    by (simp add: local_env_def)
  from request_install_installed [OF h1 h2, of tracker_ops "''main''" "[]" fresh]
  have "request_install tracker_ops (local_env [(''six;whl'', ''/idx/six.whl'')] [''six''] id)
        ''main'' ''six'' [] fresh
     = (True, \<lparr>maestro = [], trace = [CheckInstalled ''six'']\<rparr>)"
    by (simp add: prod_eq_iff fresh_def)
  with h1 h2 show ?thesis by simp
qed

text \<open>
  C5. For a package that is not blacklisted, not installed, and for which
  \<open>should_queue\<close> is false, \<open>request_install\<close> returns \<^verbatim>\<open>False\<close> after the two
  checks and nothing else: no \<open>file_package\<close>, no index lookup, no request queued.
\<close>

theorem request_install_in_flight:
  assumes "\<not> blacklisted package" and "\<not> check_installed E package"
    and "\<not> should_queue M (maestro w) package"
  shows "fst (request_install M E requester package data w) = False
       \<and> maestro (snd (request_install M E requester package data w)) = maestro w
       \<and> trace (snd (request_install M E requester package data w))
           = trace w @ [CheckInstalled package, ShouldQueue package]
       \<and> (\<forall>sv. queued sv (snd (request_install M E requester package data w)) = queued sv w)
       \<and> index_lookups (snd (request_install M E requester package data w)) = index_lookups w"
proof -
  have "request_install M E requester package data w
      = (False, called (ShouldQueue package) (called (CheckInstalled package) w))"
    using assms find_blacklist [of package] by (simp add: request_install_def Let_def)
  then show ?thesis by (simp add: effect_simps)
qed

theorem request_install_in_flight_witness:
  "\<not> blacklisted ''flask''
   \<and> \<not> check_installed (local_env [(''flask;whl'', ''/idx/flask.whl'')] [] id) ''flask''
   \<and> \<not> should_queue tracker_ops (maestro flask_queued) ''flask''
   \<and> request_install tracker_ops (local_env [(''flask;whl'', ''/idx/flask.whl'')] [] id)
        ''jinja2'' ''flask'' [] flask_queued
     = (False, \<lparr>maestro = [(''flask'', StQueued, NoneVal)],
                trace = [CheckInstalled ''flask'', ShouldQueue ''flask'']\<rparr>)"
proof -
  have h1: "\<not> blacklisted ''flask''"
    by (simp add: blacklisted_def PACKAGE_BLACKLIST_def startswith_def)
  have h2: "\<not> check_installed (local_env [(''flask;whl'', ''/idx/flask.whl'')] [] id) ''flask''"
    by (simp add: local_env_def)
  have h3: "\<not> should_queue tracker_ops (maestro flask_queued) ''flask''"
    by (simp add: tracker_defs flask_queued_def)
  from request_install_in_flight [OF h1 h2 h3, of "''jinja2''" "[]"]
  have "request_install tracker_ops (local_env [(''flask;whl'', ''/idx/flask.whl'')] [] id)
        ''jinja2'' ''flask'' [] flask_queued
     = (False, \<lparr>maestro = [(''flask'', StQueued, NoneVal)],
                trace = [CheckInstalled ''flask'', ShouldQueue ''flask'']\<rparr>)"
    by (simp add: prod_eq_iff flask_queued_def)
  with h1 h2 h3 show ?thesis by simp
qed

text \<open>
  C1. For a package that is not blacklisted, not installed and that should be
  queued, \<open>request_install\<close> takes exactly one branch of the cascade. With a
  prebuilt artifact in the index it queues one request on the dependencer and
  none elsewhere, after one index lookup; otherwise, with a compressed source, it
  queues one request on the curdler and none elsewhere; otherwise it queues one
  request on the downloader, with the caller's keyword arguments, and none
  elsewhere.
\<close>

theorem request_install_cascade:
  assumes "\<not> blacklisted package" and "\<not> check_installed E package"
    and "should_queue M (maestro w) package"
  shows "(case index_get E (package @ '';whl'') of
            Some path \<Rightarrow>
              queued Dependencer (snd (request_install M E requester package data w))
                = queued Dependencer w @ [(requester, package, [(''path'', Str path)])]
              \<and> (\<forall>sv. sv \<noteq> Dependencer \<longrightarrow>
                    queued sv (snd (request_install M E requester package data w)) = queued sv w)
              \<and> index_lookups (snd (request_install M E requester package data w))
                  = index_lookups w @ [package @ '';whl'']
          | None \<Rightarrow>
              (case index_get E (package @ '';~whl'') of
                 Some path \<Rightarrow>
                   queued Curdler (snd (request_install M E requester package data w))
                     = queued Curdler w @ [(requester, package, [(''path'', Str path)])]
                   \<and> (\<forall>sv. sv \<noteq> Curdler \<longrightarrow>
                         queued sv (snd (request_install M E requester package data w)) = queued sv w)
                   \<and> index_lookups (snd (request_install M E requester package data w))
                       = index_lookups w @ [package @ '';whl'', package @ '';~whl'']
               | None \<Rightarrow>
                   queued Downloader (snd (request_install M E requester package data w))
                     = queued Downloader w @ [(requester, package, data)]
                   \<and> (\<forall>sv. sv \<noteq> Downloader \<longrightarrow>
                         queued sv (snd (request_install M E requester package data w)) = queued sv w)
                   \<and> index_lookups (snd (request_install M E requester package data w))
                       = index_lookups w @ [package @ '';whl'', package @ '';~whl'']))"
proof -
  let ?w0 = "maestro_file_package M package (dict_get data ''dependency_of'' NoneVal)
               (called (ShouldQueue package) (called (CheckInstalled package) w))"
  have req: "request_install M E requester package data w = cascade M E requester package data ?w0"
    using assms find_blacklist [of package] by (simp add: request_install_def Let_def)
  have q0: "queued sv ?w0 = queued sv w" for sv
    by (simp add: effect_simps)
  have l0: "index_lookups ?w0 = index_lookups w"
    by (simp add: effect_simps)
  show ?thesis
  proof (cases "index_get E (package @ '';whl'')")
    case (Some path)
    then have "snd (cascade M E requester package data ?w0)
        = maestro_mark_retrieved M package (Str ''whl'')
            (service_queue Dependencer requester package [(''path'', Str path)]
               (called (IndexGet (package @ '';whl'')) ?w0))"
      by (simp add: cascade_def Let_def)
    with Some req q0 l0 show ?thesis
      by (simp add: queued_called index_lookups_called service_queue_def
          maestro_mark_retrieved_def)
  next
    case None
    note whl = this
    show ?thesis
    proof (cases "index_get E (package @ '';~whl'')")
      case (Some path)
      with whl have "snd (cascade M E requester package data ?w0)
          = maestro_mark_retrieved M package (Str ''compressed'')
              (service_queue Curdler requester package [(''path'', Str path)]
                 (called (IndexGet (package @ '';~whl''))
                    (called (IndexGet (package @ '';whl'')) ?w0)))"
        by (simp add: cascade_def Let_def)
      with Some whl req q0 l0 show ?thesis
        by (simp add: queued_called index_lookups_called service_queue_def
            maestro_mark_retrieved_def)
    next
      case None
      with whl have "snd (cascade M E requester package data ?w0)
          = service_queue Downloader requester package data
              (called (IndexGet (package @ '';~whl''))
                 (called (IndexGet (package @ '';whl'')) ?w0))"
        by (simp add: cascade_def Let_def)
      with None whl req q0 l0 show ?thesis
        by (simp add: queued_called index_lookups_called service_queue_def)
    qed
  qed
qed

theorem request_install_cascade_witness:
  "\<not> blacklisted ''flask''
   \<and> \<not> check_installed (local_env both_index [] id) ''flask''
   \<and> \<not> check_installed (local_env source_index [] id) ''flask''
   \<and> \<not> check_installed (local_env [] [] id) ''flask''
   \<and> should_queue tracker_ops (maestro fresh) ''flask''
   \<and> queued Dependencer
        (snd (request_install tracker_ops (local_env both_index [] id) ''main'' ''flask'' [] fresh))
       = [(''main'', ''flask'', [(''path'', Str ''/idx/flask.whl'')])]
   \<and> queued Curdler
        (snd (request_install tracker_ops (local_env both_index [] id) ''main'' ''flask'' [] fresh))
       = []
   \<and> queued Downloader
        (snd (request_install tracker_ops (local_env both_index [] id) ''main'' ''flask'' [] fresh))
       = []
   \<and> index_lookups
        (snd (request_install tracker_ops (local_env both_index [] id) ''main'' ''flask'' [] fresh))
       = [''flask;whl'']
   \<and> queued Curdler
        (snd (request_install tracker_ops (local_env source_index [] id) ''main'' ''flask'' [] fresh))
       = [(''main'', ''flask'', [(''path'', Str ''/idx/flask.tar.gz'')])]
   \<and> queued Downloader
        (snd (request_install tracker_ops (local_env source_index [] id) ''main'' ''flask'' [] fresh))
       = []
   \<and> queued Downloader
        (snd (request_install tracker_ops (local_env [] [] id) ''main'' ''flask''
                [(''dependency_of'', Str ''jinja2'')] fresh))
       = [(''main'', ''flask'', [(''dependency_of'', Str ''jinja2'')])]
   \<and> queued Curdler
        (snd (request_install tracker_ops (local_env [] [] id) ''main'' ''flask''
                [(''dependency_of'', Str ''jinja2'')] fresh))
       = []
   \<and> queued Installer
        (snd (request_install tracker_ops (local_env [] [] id) ''main'' ''flask''
                [(''dependency_of'', Str ''jinja2'')] fresh))
       = []"
proof -
  have h1: "\<not> blacklisted ''flask''"
    by (simp add: blacklisted_def PACKAGE_BLACKLIST_def startswith_def)
  have h2: "\<not> check_installed (local_env idx [] id) ''flask''" for idx
    by (simp add: local_env_def)
  have h3: "should_queue tracker_ops (maestro fresh) ''flask''"
    by (simp add: tracker_defs fresh_def)
  have q: "queued sv fresh = []" "index_lookups fresh = []" for sv
    by (simp_all add: queued_def index_lookups_def fresh_def)
  note a = request_install_cascade [OF h1 h2 h3, of both_index "''main''" "[]"]
  note b = request_install_cascade [OF h1 h2 h3, of source_index "''main''" "[]"]
  note c = request_install_cascade [OF h1 h2 h3, of "[]" "''main''" "[(''dependency_of'', Str ''jinja2'')]"]
  have ia: "index_get (local_env both_index [] id) ''flask;whl'' = Some ''/idx/flask.whl''"
    by (simp add: local_env_def both_index_def)
  have ib: "index_get (local_env source_index [] id) ''flask;whl'' = None"
    "index_get (local_env source_index [] id) ''flask;~whl'' = Some ''/idx/flask.tar.gz''"
    by (simp_all add: local_env_def source_index_def)
  have ic: "index_get (local_env [] [] id) k = None" for k
    by (simp add: local_env_def)
  from a ia q have A: "queued Dependencer
        (snd (request_install tracker_ops (local_env both_index [] id) ''main'' ''flask'' [] fresh))
       = [(''main'', ''flask'', [(''path'', Str ''/idx/flask.whl'')])]
   \<and> queued Curdler
        (snd (request_install tracker_ops (local_env both_index [] id) ''main'' ''flask'' [] fresh))
       = []
   \<and> queued Downloader
        (snd (request_install tracker_ops (local_env both_index [] id) ''main'' ''flask'' [] fresh))
       = []
   \<and> index_lookups
        (snd (request_install tracker_ops (local_env both_index [] id) ''main'' ''flask'' [] fresh))
       = [''flask;whl'']"
    by simp
  from b ib q have B: "queued Curdler
        (snd (request_install tracker_ops (local_env source_index [] id) ''main'' ''flask'' [] fresh))
       = [(''main'', ''flask'', [(''path'', Str ''/idx/flask.tar.gz'')])]
   \<and> queued Downloader
        (snd (request_install tracker_ops (local_env source_index [] id) ''main'' ''flask'' [] fresh))
       = []"
    by simp
  from c ic q have C: "queued Downloader
        (snd (request_install tracker_ops (local_env [] [] id) ''main'' ''flask''
                [(''dependency_of'', Str ''jinja2'')] fresh))
       = [(''main'', ''flask'', [(''dependency_of'', Str ''jinja2'')])]
   \<and> queued Curdler
        (snd (request_install tracker_ops (local_env [] [] id) ''main'' ''flask''
                [(''dependency_of'', Str ''jinja2'')] fresh))
       = []
   \<and> queued Installer
        (snd (request_install tracker_ops (local_env [] [] id) ''main'' ''flask''
                [(''dependency_of'', Str ''jinja2'')] fresh))
       = []"
    by simp
  from h1 h2 h3 A B C show ?thesis by simp
qed

text \<open>
  C7, as the code has it. The value \<open>request_install\<close> returns is \<^verbatim>\<open>True\<close>
  exactly when the package is not blacklisted and is reported installed; the
  refusal, the package already in flight and the three branches of the cascade
  all return \<^verbatim>\<open>False\<close>. So the value tells "already satisfied" from "now in
  flight", and does not tell "refused" from "in flight".
\<close>

theorem request_install_returns_installed:
  "fst (request_install M E requester package data w)
    = (\<not> blacklisted package \<and> check_installed E package)"
  by (simp add: request_install_def cascade_def Let_def find_blacklist [symmetric]
      split: option.splits)

text \<open>
  The claim C7 as it was stated fails: an installed package returns \<^verbatim>\<open>True\<close>,
  a package the cascade files and sends to the downloader returns \<^verbatim>\<open>False\<close>.
\<close>

theorem request_install_satisfied_differs:
  "check_installed (local_env [] [''six''] id) ''six''
   \<and> fst (request_install tracker_ops (local_env [] [''six''] id) ''main'' ''six'' [] fresh) = True
   \<and> trace (snd (request_install tracker_ops (local_env [] [''six''] id) ''main'' ''flask'' [] fresh))
       = [CheckInstalled ''flask'', ShouldQueue ''flask'', FilePackage ''flask'' NoneVal,
          IndexGet ''flask;whl'', IndexGet ''flask;~whl'', Queue Downloader ''main'' ''flask'' []]
   \<and> fst (request_install tracker_ops (local_env [] [''six''] id) ''main'' ''flask'' [] fresh) = False"
  by (simp add: request_install_def cascade_def Let_def PACKAGE_BLACKLIST_def startswith_def
      local_env_def tracker_defs fresh_def called_def service_queue_def
      maestro_file_package_def dict_get_def)

section \<open>InstallProgress.update\<close>

text \<open>
  C9. With an empty mapping \<open>update\<close> returns the state as it was, nothing
  written; and for every state it returns without a division by zero.
\<close>

theorem update_nothing_requested:
  "(mapping M (maestro w) = [] \<longrightarrow> update M E w = Inr w)
   \<and> update M E w \<noteq> Inl ZeroDivisionError
   \<and> (\<exists>w'. update M E w = Inr w')"
  by (simp add: update_def percent_of_def Let_def)

theorem update_nothing_requested_witness:
  "mapping tracker_ops (maestro fresh) = []
   \<and> update tracker_ops (local_env [] [] id) fresh = Inr fresh
   \<and> update tracker_ops (local_env [] [] id) flask_queued \<noteq> Inl ZeroDivisionError"
proof -
  have h: "mapping tracker_ops (maestro fresh) = []"
    by (simp add: tracker_defs fresh_def)
  from update_nothing_requested [of tracker_ops fresh "local_env [] [] id"] h
    update_nothing_requested [of tracker_ops flask_queued "local_env [] [] id"]
  show ?thesis by simp
qed

section \<open>The event filters and adapters of start\_services\<close>

lemma not_whl_complement: "re_match NOT_WHL p = (\<not> re_match WHL p)"
  by (simp add: re_match_def NOT_WHL_def)

text \<open>What \<^verbatim>\<open>.*\<close> can consume from position \<open>i\<close>: any run of characters
  that holds no newline.\<close>

lemma star_any_mem:
  "i \<le> length s \<Longrightarrow>
   j \<in> set (star_from (ends AnyChar s) n i)
     \<longleftrightarrow> i \<le> j \<and> j \<le> i + n \<and> j \<le> length s \<and> (\<forall>k. i \<le> k \<and> k < j \<longrightarrow> s ! k \<noteq> newline)"
proof (induction n arbitrary: i)
  case 0
  then show ?case by auto
next
  case (Suc n)
  show ?case
  proof (cases "i < length s \<and> s ! i \<noteq> newline")
    case True
    then have "Suc i \<le> length s" by simp
    note IH = Suc.IH [OF this]
    have unfold: "j \<in> set (star_from (ends AnyChar s) (Suc n) i)
        \<longleftrightarrow> j = i \<or> j \<in> set (star_from (ends AnyChar s) n (Suc i))"
      using True by auto
    show ?thesis
    proof (cases "j = i")
      case True
      with unfold Suc.prems show ?thesis by auto
    next
      case False
      have q: "(\<forall>k. i \<le> k \<and> k < j \<longrightarrow> s ! k \<noteq> newline)
          \<longleftrightarrow> (\<forall>k. Suc i \<le> k \<and> k < j \<longrightarrow> s ! k \<noteq> newline)"
      proof
        assume "\<forall>k. i \<le> k \<and> k < j \<longrightarrow> s ! k \<noteq> newline"
        then show "\<forall>k. Suc i \<le> k \<and> k < j \<longrightarrow> s ! k \<noteq> newline" by simp
      next
        assume a: "\<forall>k. Suc i \<le> k \<and> k < j \<longrightarrow> s ! k \<noteq> newline"
        show "\<forall>k. i \<le> k \<and> k < j \<longrightarrow> s ! k \<noteq> newline"
        proof (intro allI impI)
          fix k assume k: "i \<le> k \<and> k < j"
          show "s ! k \<noteq> newline"
          proof (cases "k = i")
            case True
            with \<open>i < length s \<and> s ! i \<noteq> newline\<close> show ?thesis by simp
          next
            case False
            with k have "Suc i \<le> k \<and> k < j" by simp
            with a show ?thesis by blast
          qed
        qed
      qed
      from False have "(i \<le> j \<and> j \<le> i + Suc n) \<longleftrightarrow> (Suc i \<le> j \<and> j \<le> Suc i + n)"
        by arith
      with unfold IH False q show ?thesis by blast
    qed
  next
    case False
    then have unfold: "j \<in> set (star_from (ends AnyChar s) (Suc n) i) \<longleftrightarrow> j = i"
      by auto
    show ?thesis
    proof (cases "j = i")
      case True
      with unfold Suc.prems show ?thesis by auto
    next
      case ne: False
      have "\<not> (i \<le> j \<and> j \<le> length s \<and> (\<forall>k. i \<le> k \<and> k < j \<longrightarrow> s ! k \<noteq> newline))"
      proof
        assume a: "i \<le> j \<and> j \<le> length s \<and> (\<forall>k. i \<le> k \<and> k < j \<longrightarrow> s ! k \<noteq> newline)"
        with ne have "i < j" by simp
        with a have "i < length s" "s ! i \<noteq> newline" by auto
        with False show False by simp
      qed
      with unfold ne show ?thesis by blast
    qed
  qed
qed

lemma concat_map_nonempty: "concat (map f xs) \<noteq> [] \<longleftrightarrow> (\<exists>x \<in> set xs. f x \<noteq> [])"
  by (induction xs) auto

lemma tail_match:
  "ends (Seq (Lit (CHR ''.'')) (Seq (Lit (CHR ''w'')) (Seq (Lit (CHR ''h''))
             (Seq (Lit (CHR ''l'')) Eol)))) s j \<noteq> []
   \<longleftrightarrow> j + 4 \<le> length s \<and> s ! j = CHR ''.'' \<and> s ! (j + 1) = CHR ''w'' \<and> s ! (j + 2) = CHR ''h''
       \<and> s ! (j + 3) = CHR ''l''
       \<and> (j + 4 = length s \<or> (j + 5 = length s \<and> s ! (j + 4) = newline))"
  by (auto simp: numeral_eq_Suc)


lemma re_match_WHL_index:
  "re_match WHL s \<longleftrightarrow>
     (\<exists>j. (\<forall>k<j. s ! k \<noteq> newline) \<and> j + 4 \<le> length s
          \<and> s ! j = CHR ''.'' \<and> s ! (j + 1) = CHR ''w'' \<and> s ! (j + 2) = CHR ''h''
          \<and> s ! (j + 3) = CHR ''l''
          \<and> (j + 4 = length s \<or> (j + 5 = length s \<and> s ! (j + 4) = newline)))"
proof -
  let ?tail = "Seq (Lit (CHR ''.'')) (Seq (Lit (CHR ''w'')) (Seq (Lit (CHR ''h''))
             (Seq (Lit (CHR ''l'')) Eol)))"
  have "re_match WHL s \<longleftrightarrow> (\<exists>j \<in> set (star_from (ends AnyChar s) (length s) 0). ends ?tail s j \<noteq> [])"
    unfolding re_match_def WHL_def by (simp only: ends.simps concat_map_nonempty minus_nat.diff_0)
  also have "\<dots> \<longleftrightarrow> (\<exists>j. (j \<le> length s \<and> (\<forall>k<j. s ! k \<noteq> newline)) \<and> ends ?tail s j \<noteq> [])"
    using star_any_mem [of 0 s _ "length s"] by (simp add: Bex_def)
  also have "\<dots> \<longleftrightarrow> (\<exists>j. (\<forall>k<j. s ! k \<noteq> newline) \<and> j + 4 \<le> length s
          \<and> s ! j = CHR ''.'' \<and> s ! (j + 1) = CHR ''w'' \<and> s ! (j + 2) = CHR ''h''
          \<and> s ! (j + 3) = CHR ''l''
          \<and> (j + 4 = length s \<or> (j + 5 = length s \<and> s ! (j + 4) = newline)))"
    unfolding tail_match by (intro ex_cong1) auto
  finally show ?thesis .
qed

lemma drop_eq_4:
  assumes "j + 4 = length s" "s ! j = a" "s ! (j + 1) = b" "s ! (j + 2) = c" "s ! (j + 3) = d"
  shows "drop j s = [a, b, c, d]"
proof (rule nth_equalityI)
  show "length (drop j s) = length [a, b, c, d]"
    using assms(1) by simp
next
  fix i assume "i < length (drop j s)"
  with assms(1) have "i < 4" by simp
  then consider "i = 0" | "i = 1" | "i = 2" | "i = 3" by arith
  then show "drop j s ! i = [a, b, c, d] ! i"
    using assms by cases (simp_all add: add.commute)
qed

lemma drop_eq_5:
  assumes "j + 5 = length s" "s ! j = a" "s ! (j + 1) = b" "s ! (j + 2) = c" "s ! (j + 3) = d"
    "s ! (j + 4) = e"
  shows "drop j s = [a, b, c, d, e]"
proof (rule nth_equalityI)
  show "length (drop j s) = length [a, b, c, d, e]"
    using assms(1) by simp
next
  fix i assume "i < length (drop j s)"
  with assms(1) have "i < 5" by simp
  then consider "i = 0" | "i = 1" | "i = 2" | "i = 3" | "i = 4" by arith
  then show "drop j s ! i = [a, b, c, d, e] ! i"
    using assms by cases (simp_all add: add.commute)
qed

lemma re_match_WHL_iff:
  "re_match WHL s \<longleftrightarrow>
     (\<exists>stem. newline \<notin> set stem \<and> (s = stem @ ''.whl'' \<or> s = stem @ ''.whl'' @ [newline]))"
proof
  assume "re_match WHL s"
  then obtain j where nl: "\<forall>k<j. s ! k \<noteq> newline" and len: "j + 4 \<le> length s"
    and c: "s ! j = CHR ''.''" "s ! (j + 1) = CHR ''w''" "s ! (j + 2) = CHR ''h''"
      "s ! (j + 3) = CHR ''l''"
    and e: "j + 4 = length s \<or> (j + 5 = length s \<and> s ! (j + 4) = newline)"
    unfolding re_match_WHL_index by blast
  have stem: "newline \<notin> set (take j s)"
  proof
    assume "newline \<in> set (take j s)"
    then obtain k where "k < length (take j s)" "take j s ! k = newline"
      by (auto simp: in_set_conv_nth)
    with nl show False by simp
  qed
  from e have "drop j s = ''.whl'' \<or> drop j s = ''.whl'' @ [newline]"
  proof
    assume "j + 4 = length s"
    from drop_eq_4 [OF this c] show ?thesis by simp
  next
    assume "j + 5 = length s \<and> s ! (j + 4) = newline"
    then have "drop j s = [CHR ''.'', CHR ''w'', CHR ''h'', CHR ''l'', newline]"
      using drop_eq_5 [OF _ c] by blast
    then show ?thesis by simp
  qed
  then have "s = take j s @ ''.whl'' \<or> s = take j s @ ''.whl'' @ [newline]"
    by (metis append_take_drop_id)
  with stem show "\<exists>stem. newline \<notin> set stem \<and> (s = stem @ ''.whl'' \<or> s = stem @ ''.whl'' @ [newline])"
    by blast
next
  assume "\<exists>stem. newline \<notin> set stem \<and> (s = stem @ ''.whl'' \<or> s = stem @ ''.whl'' @ [newline])"
  then obtain stem where nl: "newline \<notin> set stem"
    and s: "s = stem @ ''.whl'' \<or> s = stem @ ''.whl'' @ [newline]"
    by blast
  have pre: "\<forall>k<length stem. s ! k \<noteq> newline"
  proof (intro allI impI)
    fix k assume k: "k < length stem"
    with s have "s ! k = stem ! k" by (auto simp: nth_append)
    with k nl show "s ! k \<noteq> newline" by (metis nth_mem)
  qed
  from s have "length stem + 4 \<le> length s
          \<and> s ! length stem = CHR ''.'' \<and> s ! (length stem + 1) = CHR ''w''
          \<and> s ! (length stem + 2) = CHR ''h'' \<and> s ! (length stem + 3) = CHR ''l''
          \<and> (length stem + 4 = length s \<or> (length stem + 5 = length s \<and> s ! (length stem + 4) = newline))"
    by (auto simp: nth_append)
  with pre show "re_match WHL s"
    unfolding re_match_WHL_index by blast
qed

lemma whl_wheel: "re_match WHL ''/tmp/flask.whl''"
  by code_simp

lemma whl_sdist: "\<not> re_match WHL ''/tmp/flask.tar.gz''"
  by code_simp

lemma whl_empty: "\<not> re_match WHL []"
  by code_simp

text \<open>
  C6. The first two handlers of the downloader's \<^verbatim>\<open>finished\<close> event are the
  curdler's queue behind \<^verbatim>\<open>^(?!.*\.whl$)\<close> and the dependencer's queue behind
  \<^verbatim>\<open>.*\.whl$\<close>. On a payload whose \<^verbatim>\<open>path\<close> is text, or absent and then read
  as the empty string, the dependencer's queue is called iff the path matches
  \<^verbatim>\<open>.*\.whl$\<close> and the curdler's iff it does not: the two patterns are
  complementary, so exactly one of the two is called. A path matches
  \<^verbatim>\<open>.*\.whl$\<close> when it is a run of characters without a newline, then
  \<^verbatim>\<open>.whl\<close>, then the end of the string or one last newline.
\<close>

theorem only_routes_to_one_stage:
  assumes "dict_get data ''path'' (Str []) = Str p"
  shows "only (queue_handler Dependencer) WHL requester package data w
           = Inr (if re_match WHL p then service_queue Dependencer requester package data w else w)
       \<and> only (queue_handler Curdler) NOT_WHL requester package data w
           = Inr (if re_match WHL p then w else service_queue Curdler requester package data w)
       \<and> re_match NOT_WHL p = (\<not> re_match WHL p)
       \<and> re_match WHL p
           = (\<exists>stem. newline \<notin> set stem
                \<and> (p = stem @ ''.whl'' \<or> p = stem @ ''.whl'' @ [newline]))
       \<and> take 2 (connected M E Downloader Finished)
           = [only (queue_handler Curdler) NOT_WHL, only (queue_handler Dependencer) WHL]"
proof -
  have "only (queue_handler Dependencer) WHL requester package data w
           = Inr (if re_match WHL p then service_queue Dependencer requester package data w else w)
       \<and> only (queue_handler Curdler) NOT_WHL requester package data w
           = Inr (if re_match WHL p then w else service_queue Curdler requester package data w)"
    using assms by (simp add: only_def queue_handler_def not_whl_complement)
  moreover have "take 2 (connected M E Downloader Finished)
           = [only (queue_handler Curdler) NOT_WHL, only (queue_handler Dependencer) WHL]"
    by simp
  ultimately show ?thesis
    using not_whl_complement [of p] re_match_WHL_iff [of p] by blast
qed

theorem only_routes_to_one_stage_witness:
  "dict_get wheel_payload ''path'' (Str []) = Str ''/tmp/flask.whl''
   \<and> dict_get sdist_payload ''path'' (Str []) = Str ''/tmp/flask.tar.gz''
   \<and> dict_get failure_payload ''path'' (Str []) = Str []
   \<and> only (queue_handler Dependencer) WHL ''downloader'' ''flask'' wheel_payload fresh
       = Inr \<lparr>maestro = [], trace = [Queue Dependencer ''downloader'' ''flask'' wheel_payload]\<rparr>
   \<and> only (queue_handler Curdler) NOT_WHL ''downloader'' ''flask'' wheel_payload fresh = Inr fresh
   \<and> only (queue_handler Dependencer) WHL ''downloader'' ''flask'' sdist_payload fresh = Inr fresh
   \<and> only (queue_handler Curdler) NOT_WHL ''downloader'' ''flask'' sdist_payload fresh
       = Inr \<lparr>maestro = [], trace = [Queue Curdler ''downloader'' ''flask'' sdist_payload]\<rparr>
   \<and> only (queue_handler Dependencer) WHL ''downloader'' ''flask'' failure_payload fresh = Inr fresh
   \<and> only (queue_handler Curdler) NOT_WHL ''downloader'' ''flask'' failure_payload fresh
       = Inr \<lparr>maestro = [], trace = [Queue Curdler ''downloader'' ''flask'' failure_payload]\<rparr>"
proof -
  have h1: "dict_get wheel_payload ''path'' (Str []) = Str ''/tmp/flask.whl''"
    by (simp add: dict_get_def wheel_payload_def)
  have h2: "dict_get sdist_payload ''path'' (Str []) = Str ''/tmp/flask.tar.gz''"
    by (simp add: dict_get_def sdist_payload_def)
  have h3: "dict_get failure_payload ''path'' (Str []) = Str []"
    by (simp add: dict_get_def failure_payload_def)
  have q: "service_queue sv r p d fresh = \<lparr>maestro = [], trace = [Queue sv r p d]\<rparr>" for sv r p d
    by (simp add: service_queue_def called_def fresh_def)
  from only_routes_to_one_stage [OF h1, of "''downloader''" "''flask''" fresh]
    only_routes_to_one_stage [OF h2, of "''downloader''" "''flask''" fresh]
    only_routes_to_one_stage [OF h3, of "''downloader''" "''flask''" fresh]
    h1 h2 h3 whl_wheel whl_sdist whl_empty q
  show ?thesis by simp
qed

text \<open>
  C10. \<open>mark func\<close> calls \<open>func\<close> with the package and the payload's \<^verbatim>\<open>path\<close>,
  dropping the requester, when the payload has the key, and raises
  \<^verbatim>\<open>KeyError\<close> without calling \<open>func\<close> when it has not; so the State
  Tracker's \<open>mark_failed\<close>, \<open>mark_retrieved\<close> and \<open>mark_built\<close>, bound through
  \<open>mark\<close>, change its state only for a payload with a \<^verbatim>\<open>path\<close>.
\<close>

theorem mark_needs_path:
  "(map_of data ''path'' = None \<longrightarrow>
      mark func requester package data w = Inl (KeyError ''path''))
   \<and> (\<forall>v. map_of data ''path'' = Some v \<longrightarrow>
      mark func requester package data w = Inr (func package v w))
   \<and> (\<forall>w'. mark (maestro_mark_failed M) requester package data w = Inr w' \<longrightarrow>
        (\<exists>v. map_of data ''path'' = Some v \<and> maestro w' = mark_failed M package v (maestro w)))
   \<and> (\<forall>w'. mark (maestro_mark_retrieved M) requester package data w = Inr w' \<longrightarrow>
        (\<exists>v. map_of data ''path'' = Some v \<and> maestro w' = mark_retrieved M package v (maestro w)))
   \<and> (\<forall>w'. mark (maestro_mark_built M) requester package data w = Inr w' \<longrightarrow>
        (\<exists>v. map_of data ''path'' = Some v \<and> maestro w' = mark_built M package v (maestro w)))"
  by (auto simp: mark_def dict_item_def maestro_mark_failed_def maestro_mark_retrieved_def
      maestro_mark_built_def split: option.splits)

theorem mark_needs_path_witness:
  "map_of failure_payload ''path'' = None
   \<and> mark (maestro_mark_failed tracker_ops) ''downloader'' ''flask'' failure_payload flask_queued
       = Inl (KeyError ''path'')
   \<and> map_of wheel_payload ''path'' = Some (Str ''/tmp/flask.whl'')
   \<and> mark (maestro_mark_retrieved tracker_ops) ''downloader'' ''flask'' wheel_payload flask_queued
       = Inr \<lparr>maestro = [(''flask'', StRetrieved, Str ''/tmp/flask.whl'')],
               trace = [MarkRetrieved ''flask'' (Str ''/tmp/flask.whl'')]\<rparr>"
proof -
  have h1: "map_of failure_payload ''path'' = None"
    by (simp add: failure_payload_def)
  have h2: "map_of wheel_payload ''path'' = Some (Str ''/tmp/flask.whl'')"
    by (simp add: wheel_payload_def)
  have r: "maestro_mark_retrieved tracker_ops ''flask'' (Str ''/tmp/flask.whl'') flask_queued
      = \<lparr>maestro = [(''flask'', StRetrieved, Str ''/tmp/flask.whl'')],
          trace = [MarkRetrieved ''flask'' (Str ''/tmp/flask.whl'')]\<rparr>"
    by (simp add: maestro_mark_retrieved_def tracker_defs flask_queued_def
        called_def)
  from mark_needs_path [of failure_payload "maestro_mark_failed tracker_ops" "''downloader''"
      "''flask''" flask_queued tracker_ops]
    mark_needs_path [of wheel_payload "maestro_mark_retrieved tracker_ops" "''downloader''"
      "''flask''" flask_queued tracker_ops]
    h1 h2 r
  show ?thesis by simp
qed

section \<open>Install.run\<close>

lemma report_each_ok:
  "\<forall>p \<in> set ps. known M (maestro w) p \<Longrightarrow>
   \<exists>w'. report_each M ps w = Inr w' \<and> maestro w' = maestro w
        \<and> installer_calls w' = installer_calls w
        \<and> trace w' = trace w
             @ concat (map (\<lambda>p. [BestVersion p,
                                   LoggerLevel 0 '' * %s: %s''
                                     [Str (class_name (version_data M (maestro w) p)),
                                      version_data M (maestro w) p]]) ps)"
proof (induction ps arbitrary: w)
  case Nil
  then show ?case by simp
next
  case (Cons p ps)
  from Cons.prems obtain n version where bv: "best_version M (maestro w) p = Inr (n, version)"
    by (auto simp: known_def split: sum.splits)
  let ?w = "called (LoggerLevel 0 '' * %s: %s''
              [Str (class_name (dict_get version ''data'' NoneVal)),
               dict_get version ''data'' NoneVal]) (called (BestVersion p) w)"
  have vd: "version_data M (maestro w) p = dict_get version ''data'' NoneVal"
    using bv by (simp add: version_data_def)
  have m: "maestro ?w = maestro w"
    by simp
  have "\<forall>q \<in> set ps. known M (maestro ?w) q"
    using Cons.prems by simp
  from Cons.IH [OF this] obtain w' where
    "report_each M ps ?w = Inr w'" "maestro w' = maestro ?w"
    "installer_calls w' = installer_calls ?w"
    "trace w' = trace ?w
       @ concat (map (\<lambda>p. [BestVersion p,
                             LoggerLevel 0 '' * %s: %s''
                               [Str (class_name (version_data M (maestro ?w) p)),
                                version_data M (maestro ?w) p]]) ps)"
    by blast
  with bv vd m show ?case
    by (simp add: Let_def installer_calls_called)
qed

lemma report_ok:
  assumes "\<forall>p \<in> set (failed M (maestro w)). known M (maestro w) p"
  shows "\<exists>w'. report M w = Inr w' \<and> maestro w' = maestro w
        \<and> installer_calls w' = installer_calls w
        \<and> trace w' = trace w
             @ (if failed M (maestro w) \<noteq> []
                then [LoggerLevel 0 ''Some cheese was spilled in the process:'' []] else [])
             @ concat (map (\<lambda>p. [BestVersion p,
                                   LoggerLevel 0 '' * %s: %s''
                                     [Str (class_name (version_data M (maestro w) p)),
                                      version_data M (maestro w) p]])
                         (failed M (maestro w)))"
proof -
  let ?w = "if failed M (maestro w) \<noteq> []
        then called (LoggerLevel 0 ''Some cheese was spilled in the process:'' []) w
        else w"
  have m: "maestro ?w = maestro w" and i: "installer_calls ?w = installer_calls w"
    and t: "trace ?w = trace w
             @ (if failed M (maestro w) \<noteq> []
                then [LoggerLevel 0 ''Some cheese was spilled in the process:'' []] else [])"
    by (simp_all add: installer_calls_called)
  from assms m have "\<forall>p \<in> set (failed M (maestro w)). known M (maestro ?w) p"
    by simp
  from report_each_ok [OF this] obtain w' where
    "report_each M (failed M (maestro w)) ?w = Inr w'" "maestro w' = maestro ?w"
    "installer_calls w' = installer_calls ?w"
    "trace w' = trace ?w
       @ concat (map (\<lambda>p. [BestVersion p,
                             LoggerLevel 0 '' * %s: %s''
                               [Str (class_name (version_data M (maestro ?w) p)),
                                version_data M (maestro ?w) p]])
                   (failed M (maestro w)))"
    by blast
  with m i t show ?thesis
    unfolding report_def by simp
qed

lemma install_each_ok:
  "\<forall>p \<in> set ps. installable M (maestro w) p \<Longrightarrow>
   \<exists>w'. install_each M ps w = Inr w' \<and> maestro w' = maestro w
        \<and> installer_calls w' = installer_calls w
             @ map (\<lambda>p. Queue Installer ''main'' p [(''path'', version_data M (maestro w) p)]) ps
        \<and> trace w' = trace w
             @ concat (map (\<lambda>p. [BestVersion p,
                                   Queue Installer ''main'' p
                                     [(''path'', version_data M (maestro w) p)]]) ps)"
proof (induction ps arbitrary: w)
  case Nil
  then show ?case by simp
next
  case (Cons p ps)
  from Cons.prems obtain n version v where
    bv: "best_version M (maestro w) p = Inr (n, version)" and d: "map_of version ''data'' = Some v"
    by (auto simp: installable_def split: sum.splits)
  let ?w = "service_queue Installer ''main'' p [(''path'', v)] (called (BestVersion p) w)"
  have m: "maestro ?w = maestro w"
    by (simp add: service_queue_def)
  have i: "installer_calls ?w = installer_calls w @ [Queue Installer ''main'' p [(''path'', v)]]"
    by (simp add: service_queue_def installer_calls_called)
  have t: "trace ?w = trace w @ [BestVersion p, Queue Installer ''main'' p [(''path'', v)]]"
    by (simp add: service_queue_def)
  have vd: "version_data M (maestro w) p = v"
    using bv d by (simp add: version_data_def dict_get_def)
  have "\<forall>q \<in> set ps. installable M (maestro ?w) q"
    using Cons.prems m by simp
  from Cons.IH [OF this] obtain w' where
    "install_each M ps ?w = Inr w'" "maestro w' = maestro ?w"
    "installer_calls w' = installer_calls ?w
       @ map (\<lambda>p. Queue Installer ''main'' p [(''path'', version_data M (maestro ?w) p)]) ps"
    "trace w' = trace ?w
       @ concat (map (\<lambda>p. [BestVersion p,
                             Queue Installer ''main'' p
                               [(''path'', version_data M (maestro ?w) p)]]) ps)"
    by blast
  with bv d m i t vd show ?case
    by (simp add: dict_item_def)
qed

lemma run_installer_ok:
  assumes "\<forall>p \<in> set (mapping M (maestro w)). installable M (maestro w) p"
  shows "\<exists>w'. run_installer M w = Inr w' \<and> maestro w' = maestro w
        \<and> installer_calls w' = installer_calls w @ Start Installer
             # map (\<lambda>p. Queue Installer ''main'' p [(''path'', version_data M (maestro w) p)])
                 (mapping M (maestro w)) @ [Join Installer]
        \<and> trace w' = trace w @ Start Installer
             # concat (map (\<lambda>p. [BestVersion p,
                                   Queue Installer ''main'' p
                                     [(''path'', version_data M (maestro w) p)]])
                         (mapping M (maestro w))) @ [Join Installer]"
proof -
  let ?w = "called (Start Installer) w"
  have "\<forall>p \<in> set (mapping M (maestro w)). installable M (maestro ?w) p"
    using assms by simp
  from install_each_ok [OF this] obtain w' where
    "install_each M (mapping M (maestro w)) ?w = Inr w'" "maestro w' = maestro w"
    "installer_calls w' = installer_calls ?w
       @ map (\<lambda>p. Queue Installer ''main'' p [(''path'', version_data M (maestro ?w) p)])
           (mapping M (maestro w))"
    "trace w' = trace ?w
       @ concat (map (\<lambda>p. [BestVersion p,
                             Queue Installer ''main'' p
                               [(''path'', version_data M (maestro ?w) p)]])
                   (mapping M (maestro w)))"
    by auto
  then show ?thesis
    by (simp add: run_installer_def installer_calls_called)
qed

lemma upload_packages_ok:
  "\<forall>p \<in> set ps. known M (maestro w) p \<Longrightarrow>
   \<exists>w'. upload_packages M server ps w = Inr w' \<and> maestro w' = maestro w
        \<and> installer_calls w' = installer_calls w"
proof (induction ps arbitrary: w)
  case Nil
  then show ?case by simp
next
  case (Cons p ps)
  from Cons.prems obtain n data where bv: "best_version M (maestro w) p = Inr (n, data)"
    by (auto simp: known_def split: sum.splits)
  let ?w = "service_queue Uploader ''main'' p
              [(''path'', dict_get data ''data'' NoneVal), (''server'', Str server)]
              (called (BestVersion p) w)"
  have m: "maestro ?w = maestro w" and i: "installer_calls ?w = installer_calls w"
    by (simp_all add: service_queue_def installer_calls_called)
  have "\<forall>q \<in> set ps. known M (maestro ?w) q"
    using Cons.prems m by simp
  from Cons.IH [OF this] obtain w' where
    "upload_packages M server ps ?w = Inr w'" "maestro w' = maestro ?w"
    "installer_calls w' = installer_calls ?w"
    by blast
  with bv m i show ?case
    by simp
qed

lemma upload_servers_ok:
  "\<forall>sp \<in> set fs. \<forall>p \<in> set (snd sp). known M (maestro w) p \<Longrightarrow>
   \<exists>w'. upload_servers M fs w = Inr w' \<and> maestro w' = maestro w
        \<and> installer_calls w' = installer_calls w"
proof (induction fs arbitrary: w)
  case Nil
  then show ?case by simp
next
  case (Cons sp fs)
  obtain server ps where sp: "sp = (server, ps)"
    by (cases sp)
  with Cons.prems have "\<forall>p \<in> set ps. known M (maestro w) p"
    by simp
  from upload_packages_ok [OF this] obtain w1 where
    w1: "upload_packages M server ps w = Inr w1" "maestro w1 = maestro w"
      "installer_calls w1 = installer_calls w"
    by blast
  with Cons.prems have "\<forall>sp \<in> set fs. \<forall>p \<in> set (snd sp). known M (maestro w1) p"
    by simp
  from Cons.IH [OF this] obtain w' where
    "upload_servers M fs w1 = Inr w'" "maestro w' = maestro w1"
    "installer_calls w' = installer_calls w1"
    by blast
  with w1 sp show ?case
    by simp
qed

lemma run_uploader_ok:
  assumes "uploadable M E (maestro w)"
  shows "\<exists>w'. run_uploader M E w = Inr w' \<and> maestro w' = maestro w
        \<and> installer_calls w' = installer_calls w"
proof (cases "get_servers_to_update E w = []")
  case True
  then show ?thesis
    by (simp add: run_uploader_def installer_calls_called)
next
  case False
  let ?w = "called (Start Uploader) (called GetServersToUpdate w)"
  have "\<forall>sp \<in> set (get_servers_to_update E w). \<forall>p \<in> set (snd sp). known M (maestro ?w) p"
    using assms by (simp add: uploadable_def)
  from upload_servers_ok [OF this] obtain w' where
    "upload_servers M (get_servers_to_update E w) ?w = Inr w'" "maestro w' = maestro ?w"
    "installer_calls w' = installer_calls ?w"
    by blast
  with False show ?thesis
    by (simp add: run_uploader_def installer_calls_called)
qed

lemma update_installer_calls:
  "update M E u = Inr u' \<Longrightarrow> installer_calls u' = installer_calls u \<and> maestro u' = maestro u"
  by (auto simp: update_def percent_of_def Let_def installer_calls_called split: if_splits)

lemma poll_settles_to:
  assumes "poll M E w = Some y"
  shows "settles_to M E w y"
proof (rule poll.raw_induct [where P = settles_to, OF _ assms])
  fix p :: "'a maestro_ops \<Rightarrow> 'a env \<Rightarrow> 'a world \<Rightarrow> (error + 'a world) option"
    and M E w y
  assume IH: "\<And>M E w y. p M E w = Some y \<Longrightarrow> settles_to M E w y"
    and body: "(if has_events M w
         then case update M E (sleep E w) of Inl e \<Rightarrow> Some (Inl e) | Inr w' \<Rightarrow> p M E w'
         else Some (Inr w)) = Some y"
  show "settles_to M E w y"
    unfolding settles_to_def
  proof (intro allI impI)
    fix w1
    assume y: "y = Inr w1" and pres: "\<forall>u. installer_calls (workers E u) = installer_calls u"
    show "installer_calls w1 = installer_calls w \<and> pending_packages M (maestro w1) = []"
    proof (cases "has_events M w")
      case False
      with body y show ?thesis
        by (simp add: has_events_def)
    next
      case True
      with body y obtain u where u: "update M E (sleep E w) = Inr u" and p: "p M E u = Some y"
        by (auto split: sum.splits)
      from IH [OF p] y pres
      have "installer_calls w1 = installer_calls u \<and> pending_packages M (maestro w1) = []"
        by (simp add: settles_to_def)
      moreover have "installer_calls u = installer_calls w"
        using update_installer_calls [OF u] pres
        by (simp add: sleep_def installer_calls_called)
      ultimately show ?thesis by simp
    qed
  qed
qed

lemma poll_settles:
  assumes "poll M E w = Some (Inr w1)"
    and "\<forall>u. installer_calls (workers E u) = installer_calls u"
  shows "installer_calls w1 = installer_calls w \<and> pending_packages M (maestro w1) = []"
  using poll_settles_to [OF assms(1)] assms(2) by (simp add: settles_to_def)

lemma poll_build_flask: "poll tracker_ops build_flask flask_queued = Some (Inr flask_built)"
  by code_simp

lemma poll_fail_flask: "poll tracker_ops fail_flask flask_queued = Some (Inr flask_failed)"
  by code_simp

text \<open>
  C2. When the polling loop ends, nothing is pending. If the failed set is then
  non-empty (and the State Tracker knows every package in it), \<open>run\<close> reports
  the failures and returns 1: after the loop it logs the header line and, for
  every failed package in order, asks for its best version and logs the class
  and the value of its data; it makes no other call, so the installer is
  neither started nor handed a request, and the State Tracker is as the loop
  left it. If the failed set is empty (and every package of the mapping has a
  version with data, and the packages to upload are known), \<open>run\<close> starts the
  installer, hands it every package of the mapping in order with its best
  version's data as the path, joins it, runs the uploader when the configuration
  asks for it, and returns 0. The workers are assumed never to call the installer
  themselves: no handler of \<open>connected\<close> does.
\<close>

theorem run_fail_closed:
  assumes "poll M E w = Some (Inr w1)"
    and "\<forall>u. installer_calls (workers E u) = installer_calls u"
  shows "pending_packages M (maestro w1) = []
       \<and> (failed M (maestro w1) \<noteq> [] \<and> (\<forall>p \<in> set (failed M (maestro w1)). known M (maestro w1) p)
            \<longrightarrow> (\<exists>w2. run M E w = Some (Inr (FAILURE, w2))
                   \<and> installer_calls w2 = installer_calls w
                   \<and> maestro w2 = maestro w1
                   \<and> trace w2 = trace w1
                        @ LoggerLevel 0 ''Some cheese was spilled in the process:'' []
                        # concat (map (\<lambda>p. [BestVersion p,
                                   LoggerLevel 0 '' * %s: %s''
                                     [Str (class_name (version_data M (maestro w1) p)),
                                      version_data M (maestro w1) p]])
                                   (failed M (maestro w1)))))
       \<and> (failed M (maestro w1) = []
          \<and> (\<forall>p \<in> set (mapping M (maestro w1)). installable M (maestro w1) p)
          \<and> (conf_upload E \<longrightarrow> uploadable M E (maestro w1))
            \<longrightarrow> (\<exists>wi w2. run M E w = Some (Inr (SUCCESS, w2))
                   \<and> installer_calls w2 = installer_calls w @ Start Installer
                       # map (\<lambda>p. Queue Installer ''main'' p
                                     [(''path'', version_data M (maestro w1) p)])
                           (mapping M (maestro w1)) @ [Join Installer]
                   \<and> maestro w2 = maestro w1
                   \<and> trace wi = trace w1 @ Start Installer
                       # concat (map (\<lambda>p. [BestVersion p,
                                   Queue Installer ''main'' p
                                     [(''path'', version_data M (maestro w1) p)]])
                                  (mapping M (maestro w1))) @ [Join Installer]
                   \<and> (if conf_upload E then run_uploader M E wi = Inr w2 else w2 = wi)))
       \<and> FAILURE = 1 \<and> SUCCESS = 0"
proof (intro conjI impI)
  show "pending_packages M (maestro w1) = []"
    using poll_settles [OF assms] by simp
next
  let ?lines = "LoggerLevel 0 ''Some cheese was spilled in the process:'' []
          # concat (map (\<lambda>p. [BestVersion p,
                     LoggerLevel 0 '' * %s: %s''
                       [Str (class_name (version_data M (maestro w1) p)),
                        version_data M (maestro w1) p]])
                     (failed M (maestro w1)))"
  assume a: "failed M (maestro w1) \<noteq> [] \<and> (\<forall>p \<in> set (failed M (maestro w1)). known M (maestro w1) p)"
  then obtain w2 where w2: "report M w1 = Inr w2" "installer_calls w2 = installer_calls w1"
    "maestro w2 = maestro w1" "trace w2 = trace w1 @ ?lines"
    using report_ok [of M w1] by auto
  have "run M E w = Some (Inr (FAILURE, w2))"
    using a assms(1) w2(1) by (simp add: run_def run_settled_def)
  moreover have "installer_calls w2 = installer_calls w"
    using w2(2) poll_settles [OF assms] by simp
  ultimately show "\<exists>w2. run M E w = Some (Inr (FAILURE, w2))
      \<and> installer_calls w2 = installer_calls w \<and> maestro w2 = maestro w1
      \<and> trace w2 = trace w1 @ ?lines"
    using w2(3,4) by blast
next
  assume a: "failed M (maestro w1) = []
          \<and> (\<forall>p \<in> set (mapping M (maestro w1)). installable M (maestro w1) p)
          \<and> (conf_upload E \<longrightarrow> uploadable M E (maestro w1))"
  let ?calls = "Start Installer
         # map (\<lambda>p. Queue Installer ''main'' p [(''path'', version_data M (maestro w1) p)])
             (mapping M (maestro w1)) @ [Join Installer]"
  let ?made = "Start Installer
         # concat (map (\<lambda>p. [BestVersion p,
                     Queue Installer ''main'' p [(''path'', version_data M (maestro w1) p)]])
                    (mapping M (maestro w1))) @ [Join Installer]"
  from a obtain wi where wi: "run_installer M w1 = Inr wi" "maestro wi = maestro w1"
    "installer_calls wi = installer_calls w1 @ ?calls" "trace wi = trace w1 @ ?made"
    using run_installer_ok [of M w1] by blast
  have w1: "installer_calls w1 = installer_calls w"
    using poll_settles [OF assms] by simp
  show "\<exists>wi w2. run M E w = Some (Inr (SUCCESS, w2))
      \<and> installer_calls w2 = installer_calls w @ ?calls \<and> maestro w2 = maestro w1
      \<and> trace wi = trace w1 @ ?made
      \<and> (if conf_upload E then run_uploader M E wi = Inr w2 else w2 = wi)"
  proof (cases "conf_upload E")
    case False
    then have "run M E w = Some (Inr (SUCCESS, wi))"
      using a wi(1) assms(1) by (simp add: run_def run_settled_def)
    with False wi w1 show ?thesis
      by (intro exI [of _ wi]) simp
  next
    case True
    with a wi have "uploadable M E (maestro wi)"
      by simp
    from run_uploader_ok [OF this] obtain wu where wu:
      "run_uploader M E wi = Inr wu" "installer_calls wu = installer_calls wi"
      "maestro wu = maestro wi"
      by blast
    have "run M E w = Some (Inr (SUCCESS, wu))"
      using True a wi(1) wu(1) assms(1) by (simp add: run_def run_settled_def)
    with True wi wu w1 show ?thesis
      by (intro exI [of _ wi] exI [of _ wu]) simp
  qed
next
  show "FAILURE = 1" by (simp add: FAILURE_def)
next
  show "SUCCESS = 0" by (simp add: SUCCESS_def)
qed

theorem run_fail_closed_witness:
  "poll tracker_ops build_flask flask_queued = Some (Inr flask_built)
   \<and> (\<forall>u. installer_calls (workers build_flask u) = installer_calls u)
   \<and> failed tracker_ops (maestro flask_built) = []
   \<and> installable tracker_ops (maestro flask_built) ''flask''
   \<and> \<not> conf_upload build_flask
   \<and> (\<exists>w2. run tracker_ops build_flask flask_queued = Some (Inr (0, w2))
         \<and> trace w2 = trace flask_built
             @ [Start Installer, BestVersion ''flask'',
                Queue Installer ''main'' ''flask'' [(''path'', Str ''/wheels/flask.whl'')],
                Join Installer])
   \<and> poll tracker_ops fail_flask flask_queued = Some (Inr flask_failed)
   \<and> (\<forall>u. installer_calls (workers fail_flask u) = installer_calls u)
   \<and> failed tracker_ops (maestro flask_failed) = [''flask'']
   \<and> known tracker_ops (maestro flask_failed) ''flask''
   \<and> (\<exists>w2. run tracker_ops fail_flask flask_queued = Some (Inr (1, w2))
         \<and> installer_calls w2 = []
         \<and> trace w2 = trace flask_failed
             @ [LoggerLevel 0 ''Some cheese was spilled in the process:'' [],
                BestVersion ''flask'',
                LoggerLevel 0 '' * %s: %s'' [Str ''IOError'', Obj ''IOError'' ''reset'']])"
proof -
  have b1: "\<forall>u. installer_calls (workers build_flask u) = installer_calls u"
    by (simp add: build_flask_def local_env_def)
  have b2: "failed tracker_ops (maestro flask_built) = []"
    by (simp add: tracker_defs flask_built_def)
  have b3: "installable tracker_ops (maestro flask_built) ''flask''"
    by (simp add: installable_def tracker_defs flask_built_def)
  have b4: "\<not> conf_upload build_flask"
    by (simp add: build_flask_def local_env_def)
  have b5: "mapping tracker_ops (maestro flask_built) = [''flask'']"
    by (simp add: tracker_defs flask_built_def)
  have b6: "version_data tracker_ops (maestro flask_built) ''flask'' = Str ''/wheels/flask.whl''"
    by (simp add: version_data_def dict_get_def tracker_defs flask_built_def)
  have f1: "\<forall>u. installer_calls (workers fail_flask u) = installer_calls u"
    by (simp add: fail_flask_def local_env_def)
  have f2: "failed tracker_ops (maestro flask_failed) = [''flask'']"
    by (simp add: tracker_defs flask_failed_def)
  have f3: "known tracker_ops (maestro flask_failed) ''flask''"
    by (simp add: known_def tracker_defs flask_failed_def)
  have f4: "version_data tracker_ops (maestro flask_failed) ''flask'' = Obj ''IOError'' ''reset''"
    by (simp add: version_data_def dict_get_def tracker_defs flask_failed_def)
  have i0: "installer_calls flask_queued = []"
    by (simp add: installer_calls_def flask_queued_def)
  from run_fail_closed [OF poll_build_flask b1] b2 b3 b4 b5 b6
  have B: "\<exists>w2. run tracker_ops build_flask flask_queued = Some (Inr (0, w2))
         \<and> trace w2 = trace flask_built
             @ [Start Installer, BestVersion ''flask'',
                Queue Installer ''main'' ''flask'' [(''path'', Str ''/wheels/flask.whl'')],
                Join Installer]"
    by (auto simp: SUCCESS_def)
  from run_fail_closed [OF poll_fail_flask f1] f2 f3 f4 i0
  have F: "\<exists>w2. run tracker_ops fail_flask flask_queued = Some (Inr (1, w2))
         \<and> installer_calls w2 = []
         \<and> trace w2 = trace flask_failed
             @ [LoggerLevel 0 ''Some cheese was spilled in the process:'' [],
                BestVersion ''flask'',
                LoggerLevel 0 '' * %s: %s'' [Str ''IOError'', Obj ''IOError'' ''reset'']]"
    by (auto simp: FAILURE_def)
  from poll_build_flask poll_fail_flask b1 b2 b3 b4 f1 f2 f3 B F show ?thesis
    by simp
qed

section \<open>Overlapping calls of request\_install\<close>

lemma request_install_phases:
  "request_install M E requester package data w =
     (case check_phase M E package w of
        (Returned r, w1) \<Rightarrow> (r, w1)
      | (_, w1) \<Rightarrow> file_phase M E requester package data w1)"
  by (simp add: request_install_def check_phase_def file_phase_def Let_def split: option.splits)

lemma check_phase_not_Entry: "fst (check_phase M E package w) \<noteq> Entry"
  by (simp add: check_phase_def Let_def split: option.splits)

lemma run_to_completion:
  "interleave M E [0, 0] [requesting requester package data] w =
     ([(requesting requester package data)
         \<lparr>t_pc := Returned (fst (request_install M E requester package data w))\<rparr>],
      snd (request_install M E requester package data w))"
proof (cases "check_phase M E package w")
  case (Pair p w1)
  show ?thesis
  proof (cases p)
    case Entry
    with Pair check_phase_not_Entry [of M E package w] show ?thesis by simp
  next
    case Checked
    with Pair show ?thesis
      by (simp add: request_install_phases thread_step_def requesting_def split: prod.splits)
  next
    case (Returned r)
    with Pair show ?thesis
      by (simp add: request_install_phases thread_step_def requesting_def)
  qed
qed

lemma check_phase_passes:
  assumes "\<not> blacklisted package" "\<not> check_installed E package"
    "should_queue M (maestro w) package"
  shows "check_phase M E package w
     = (Checked, called (ShouldQueue package) (called (CheckInstalled package) w))"
  using assms find_blacklist [of package] by (simp add: check_phase_def Let_def)

lemma file_phase_fetch:
  assumes "index_get E (package @ '';whl'') = None" "index_get E (package @ '';~whl'') = None"
  shows "file_phase M E requester package data w
     = (False, service_queue Downloader requester package data
                 (called (IndexGet (package @ '';~whl''))
                    (called (IndexGet (package @ '';whl''))
                       (maestro_file_package M package (dict_get data ''dependency_of'' NoneVal) w))))"
  using assms by (simp add: file_phase_def cascade_def Let_def)

text \<open>
  Two requesters of one package, for every State Tracker. If both pass the
  blacklist and the installed check and find \<open>should_queue\<close> true, then at the
  schedule check, check, file, file both are past the check before either has
  filed, and with neither artifact in the index both queue a download. Scheduled
  one after the other, with \<open>should_queue\<close> false once the first has filed, the
  second returns after the check and one download is queued. A thread that runs
  both phases alone does what \<open>request_install\<close> does.
\<close>

lemma two_requesters_scheduled:
  assumes "\<not> blacklisted package" and "\<not> check_installed E package"
    and "should_queue M (maestro w) package"
  shows "map t_pc (fst (interleave M E [0, 1]
            [requesting r1 package d1, requesting r2 package d2] w)) = [Checked, Checked]
       \<and> maestro (snd (interleave M E [0, 1]
            [requesting r1 package d1, requesting r2 package d2] w)) = maestro w
       \<and> (index_get E (package @ '';whl'') = None \<and> index_get E (package @ '';~whl'') = None
            \<longrightarrow>
            map t_pc (fst (interleave M E [0, 1, 0, 1]
              [requesting r1 package d1, requesting r2 package d2] w))
              = [Returned False, Returned False]
            \<and> queued Downloader (snd (interleave M E [0, 1, 0, 1]
                [requesting r1 package d1, requesting r2 package d2] w))
              = queued Downloader w @ [(r1, package, d1), (r2, package, d2)]
            \<and> (\<not> should_queue M
                   (file_package M package (dict_get d1 ''dependency_of'' NoneVal) (maestro w))
                   package
                \<longrightarrow>
                map t_pc (fst (interleave M E [0, 0, 1, 1]
                  [requesting r1 package d1, requesting r2 package d2] w))
                  = [Returned False, Returned False]
                \<and> queued Downloader (snd (interleave M E [0, 0, 1, 1]
                    [requesting r1 package d1, requesting r2 package d2] w))
                  = queued Downloader w @ [(r1, package, d1)]))
       \<and> interleave M E [0, 0] [requesting r1 package d1] w =
           ([(requesting r1 package d1)
               \<lparr>t_pc := Returned (fst (request_install M E r1 package d1 w))\<rparr>],
            snd (request_install M E r1 package d1 w))"
proof -
  let ?ts = "[requesting r1 package d1, requesting r2 package d2]"
  let ?c1 = "called (ShouldQueue package) (called (CheckInstalled package) w)"
  let ?c2 = "called (ShouldQueue package) (called (CheckInstalled package) ?c1)"
  have s1: "check_phase M E package w = (Checked, ?c1)"
    using assms by (rule check_phase_passes)
  have s2: "check_phase M E package ?c1 = (Checked, ?c2)"
    using assms by (intro check_phase_passes) simp_all
  have i2: "interleave M E [0, 1] ?ts w
      = ([(requesting r1 package d1)\<lparr>t_pc := Checked\<rparr>,
          (requesting r2 package d2)\<lparr>t_pc := Checked\<rparr>], ?c2)"
    by (simp add: thread_step_def requesting_def s1 s2)
  have fetch: "map t_pc (fst (interleave M E [0, 1, 0, 1] ?ts w)) = [Returned False, Returned False]
      \<and> queued Downloader (snd (interleave M E [0, 1, 0, 1] ?ts w))
           = queued Downloader w @ [(r1, package, d1), (r2, package, d2)]
      \<and> (\<not> should_queue M
             (file_package M package (dict_get d1 ''dependency_of'' NoneVal) (maestro w)) package
          \<longrightarrow>
          map t_pc (fst (interleave M E [0, 0, 1, 1] ?ts w)) = [Returned False, Returned False]
          \<and> queued Downloader (snd (interleave M E [0, 0, 1, 1] ?ts w))
               = queued Downloader w @ [(r1, package, d1)])"
    if none: "index_get E (package @ '';whl'') = None \<and> index_get E (package @ '';~whl'') = None"
  proof -
    from none have n1: "index_get E (package @ '';whl'') = None"
      and n2: "index_get E (package @ '';~whl'') = None"
      by simp_all
    note ff = file_phase_fetch [OF n1 n2]
    have "interleave M E [0, 1, 0, 1] ?ts w
        = ([(requesting r1 package d1)\<lparr>t_pc := Returned False\<rparr>,
            (requesting r2 package d2)\<lparr>t_pc := Returned False\<rparr>],
           snd (file_phase M E r2 package d2 (snd (file_phase M E r1 package d1 ?c2))))"
      by (simp add: thread_step_def requesting_def s1 s2 ff)
    then have i4: "map t_pc (fst (interleave M E [0, 1, 0, 1] ?ts w))
          = [Returned False, Returned False]"
      "queued Downloader (snd (interleave M E [0, 1, 0, 1] ?ts w))
         = queued Downloader w @ [(r1, package, d1), (r2, package, d2)]"
      by (simp_all add: ff effect_simps)
    have seq: "map t_pc (fst (interleave M E [0, 0, 1, 1] ?ts w))
            = [Returned False, Returned False]
          \<and> queued Downloader (snd (interleave M E [0, 0, 1, 1] ?ts w))
            = queued Downloader w @ [(r1, package, d1)]"
      if contract: "\<not> should_queue M
          (file_package M package (dict_get d1 ''dependency_of'' NoneVal) (maestro w)) package"
    proof -
      let ?f1 = "snd (file_phase M E r1 package d1 ?c1)"
      have m: "maestro ?f1
          = file_package M package (dict_get d1 ''dependency_of'' NoneVal) (maestro w)"
        by (simp add: ff effect_simps)
      have c: "check_phase M E package ?f1
          = (Returned False, called (ShouldQueue package) (called (CheckInstalled package) ?f1))"
        using assms(1,2) contract m find_blacklist [of package]
        by (simp add: check_phase_def Let_def)
      have "interleave M E [0, 0, 1, 1] ?ts w
          = ([(requesting r1 package d1)\<lparr>t_pc := Returned False\<rparr>,
              (requesting r2 package d2)\<lparr>t_pc := Returned False\<rparr>],
             called (ShouldQueue package) (called (CheckInstalled package) ?f1))"
        using c by (simp add: thread_step_def requesting_def s1 ff)
      then show ?thesis
        by (simp add: ff effect_simps)
    qed
    from i4 seq show ?thesis by simp
  qed
  from i2 fetch run_to_completion [of M E r1 package d1 w] show ?thesis
    by simp
qed

text \<open>
  C8. The claim is that the check of \<open>should_queue\<close> and the call of
  \<open>file_package\<close> are one critical section, so that two requesters of a package
  never both observe "not queued" before either files it. The code at two
  requesters of \<^verbatim>\<open>flask\<close>, on a fresh State Tracker and an empty index,
  scheduled check, check, file, file: both are past the check while nothing is
  filed, and at the end both have returned and the package is queued on the
  downloader twice, against the comment above the check (the same package
  should not be queued twice). The State Tracker holds one queued attempt for
  the package at the end; what is doubled is the work forwarded.
\<close>

theorem both_requesters_pass_the_check:
  "map t_pc (fst (interleave tracker_ops (local_env [] [] id) [0, 1] two_requesters fresh))
     = [Checked, Checked]
   \<and> maestro (snd (interleave tracker_ops (local_env [] [] id) [0, 1] two_requesters fresh)) = []
   \<and> map t_pc (fst (interleave tracker_ops (local_env [] [] id) [0, 1, 0, 1] two_requesters fresh))
     = [Returned False, Returned False]
   \<and> queued Downloader
        (snd (interleave tracker_ops (local_env [] [] id) [0, 1, 0, 1] two_requesters fresh))
     = [(''main'', ''flask'', []),
        (''dependencer'', ''flask'', [(''dependency_of'', Str ''jinja2'')])]
   \<and> maestro (snd (interleave tracker_ops (local_env [] [] id) [0, 1, 0, 1] two_requesters fresh))
     = [(''flask'', StQueued, NoneVal)]"
  by code_simp

end
